theory Spec2Isabelle
  imports Complex_Main "HOL-Library.Product_Lexorder"
begin

section \<open>Vector primitives and DBSCAN (utils/clustering.ts)\<close>

text \<open>
  An \<open>Embedding\<close> is a \<open>number[]\<close>. JavaScript numbers are modelled as reals
  (no NaN, no infinities, no rounding); cluster labels and indices are integers.
\<close>

type_synonym Embedding = "real list"

datatype error =
    LengthMismatch      \<comment> \<open>\<open>Error('Embeddings must have the same length')\<close>\<close>
  | TypeError           \<comment> \<open>reading \<open>.length\<close> of \<open>undefined\<close>\<close>

text \<open>\<open>euclideanDistance\<close>: the length check, then the summing loop, then the root.\<close>

definition sumSquares :: "Embedding \<Rightarrow> Embedding \<Rightarrow> real" where
  "sumSquares a b = foldl (\<lambda>sum (x, y). sum + (x - y) * (x - y)) 0 (zip a b)"

definition euclideanDistance :: "Embedding \<Rightarrow> Embedding \<Rightarrow> error + real" where
  "euclideanDistance a b =
     (if length a \<noteq> length b then Inl LengthMismatch
      else Inr (sqrt (sumSquares a b)))"

text \<open>
  \<open>getNeighbors\<close>: the loop over \<open>i = 0 .. embeddings.length - 1\<close>, walking the array
  with the running index \<open>i\<close> and the array \<open>neighbors\<close> built so far. The point itself
  is skipped by \<open>i !== pointIdx\<close> before any distance is computed. \<open>point\<close> is
  \<open>embeddings[pointIdx]\<close>, \<open>undefined\<close> (here \<open>None\<close>) when out of range.
\<close>

fun getNeighborsLoop ::
  "Embedding option \<Rightarrow> nat \<Rightarrow> real \<Rightarrow> nat \<Rightarrow> Embedding list \<Rightarrow> nat list \<Rightarrow> error + nat list" where
  "getNeighborsLoop point pointIdx eps i [] neighbors = Inr neighbors"
| "getNeighborsLoop point pointIdx eps i (e # es) neighbors =
     (if i \<noteq> pointIdx then
        (case point of
           None \<Rightarrow> Inl TypeError
         | Some p \<Rightarrow>
             (case euclideanDistance p e of
                Inl err \<Rightarrow> Inl err
              | Inr d \<Rightarrow>
                  getNeighborsLoop point pointIdx eps (Suc i) es
                    (if d \<le> eps then neighbors @ [i] else neighbors)))
      else getNeighborsLoop point pointIdx eps (Suc i) es neighbors)"

definition getNeighbors :: "Embedding list \<Rightarrow> nat \<Rightarrow> real \<Rightarrow> error + nat list" where
  "getNeighbors embeddings pointIdx eps =
     getNeighborsLoop
       (if pointIdx < length embeddings then Some (embeddings ! pointIdx) else None)
       pointIdx eps 0 embeddings []"

text \<open>
  The innermost loop of \<open>dbscanClustering\<close>: every \<open>newNeighbor\<close> not yet in
  \<open>neighborQueue\<close> is pushed at its end.
\<close>

fun pushNew :: "nat list \<Rightarrow> nat list \<Rightarrow> nat list" where
  "pushNew neighborQueue [] = neighborQueue"
| "pushNew neighborQueue (newNeighbor # rest) =
     pushNew (if newNeighbor \<in> set neighborQueue then neighborQueue
              else neighborQueue @ [newNeighbor]) rest"

lemma sumSquares_nonneg_aux:
  "0 \<le> s \<Longrightarrow> 0 \<le> foldl (\<lambda>sum (x, y). sum + (x - y) * (x - y)) (s::real) ps"
  by (induction ps arbitrary: s) (auto simp: case_prod_beta)

lemma sumSquares_nonneg: "0 \<le> sumSquares a b"
  unfolding sumSquares_def by (rule sumSquares_nonneg_aux) simp

lemma getNeighborsLoop_bound:
  "getNeighborsLoop point pointIdx eps i es acc = Inr ns \<Longrightarrow>
   set ns \<subseteq> set acc \<union> {i ..< i + length es}"
proof (induction es arbitrary: i acc)
  case Nil
  then show ?case by simp
next
  case (Cons e es)
  show ?case
  proof (cases "i \<noteq> pointIdx")
    case False
    with Cons.prems have "getNeighborsLoop point pointIdx eps (Suc i) es acc = Inr ns"
      by simp
    from Cons.IH [OF this] show ?thesis by auto
  next
    case True
    with Cons.prems obtain p d where
      d: "point = Some p" "euclideanDistance p e = Inr d"
      and r: "getNeighborsLoop point pointIdx eps (Suc i) es
                (if d \<le> eps then acc @ [i] else acc) = Inr ns"
      by (auto split: option.splits sum.splits)
    from Cons.IH [OF r] show ?thesis by (auto split: if_splits)
  qed
qed

lemma getNeighbors_bound:
  "getNeighbors embeddings pointIdx eps = Inr ns \<Longrightarrow> set ns \<subseteq> {..< length embeddings}"
  unfolding getNeighbors_def by (drule getNeighborsLoop_bound) auto

lemma pushNew_measure:
  "set nn \<subseteq> {..< n} \<Longrightarrow>
   card ({..< n} - set (pushNew q nn)) + length (pushNew q nn) =
   card ({..< n} - set q) + length q"
proof (induction nn arbitrary: q)
  case Nil
  then show ?case by simp
next
  case (Cons x nn)
  then have x: "x < n" and nn: "set nn \<subseteq> {..< n}" by auto
  show ?case
  proof (cases "x \<in> set q")
    case True
    with Cons.IH [OF nn, of q] show ?thesis by simp
  next
    case False
    have "{..< n} - set (q @ [x]) = ({..< n} - set q) - {x}" by auto
    moreover have "x \<in> {..< n} - set q" using x False by simp
    moreover have "finite ({..< n} - set q)" by simp
    ultimately have "card ({..< n} - set (q @ [x])) + 1 = card ({..< n} - set q)"
      by (metis card.remove Suc_eq_plus1)
    with Cons.IH [OF nn, of "q @ [x]"] False show ?thesis by simp
  qed
qed

lemma pushNew_length: "length q \<le> length (pushNew q nn)"
proof (induction nn arbitrary: q)
  case Nil
  then show ?case by simp
next
  case (Cons x nn)
  have "length q \<le> length (if x \<in> set q then q else q @ [x])" by simp
  also have "\<dots> \<le> length (pushNew (if x \<in> set q then q else q @ [x]) nn)"
    by (rule Cons.IH)
  finally show ?case by simp
qed


text \<open>
  The expansion loop \<open>for (let j = 0; j < neighborQueue.length; j++)\<close> of
  \<open>dbscanClustering\<close>. The queue grows while it is walked. A read of \<open>clusters\<close>
  outside its range gives \<open>undefined\<close>, which is not \<open>-1\<close>.
\<close>

function expandCluster ::
  "Embedding list \<Rightarrow> real \<Rightarrow> real \<Rightarrow> int \<Rightarrow> nat list \<Rightarrow> nat \<Rightarrow> int list \<Rightarrow> error + int list" where
  "expandCluster embeddings eps minPoints clusterId neighborQueue j clusters =
     (if j < length neighborQueue then
        (let neighborIdx = neighborQueue ! j in
         if neighborIdx < length clusters \<and> clusters ! neighborIdx = - 1 then
           (case getNeighbors embeddings neighborIdx eps of
              Inl err \<Rightarrow> Inl err
            | Inr neighborNeighbors \<Rightarrow>
                expandCluster embeddings eps minPoints clusterId
                  (if real (length neighborNeighbors) \<ge> minPoints
                   then pushNew neighborQueue neighborNeighbors else neighborQueue)
                  (Suc j) (clusters[neighborIdx := clusterId]))
         else expandCluster embeddings eps minPoints clusterId neighborQueue (Suc j) clusters)
      else Inr clusters)"
  by pat_completeness auto
termination
proof (relation "measure (\<lambda>(embeddings, eps, minPoints, clusterId, neighborQueue, j, clusters).
          card ({..< length embeddings} - set neighborQueue) + length neighborQueue - j)")
  show "wf (measure (\<lambda>(embeddings, eps, minPoints, clusterId, neighborQueue, j, clusters).
          card ({..< length embeddings} - set neighborQueue) + length neighborQueue - j))"
    by simp
next
  fix embeddings :: "Embedding list" and eps minPoints :: real and clusterId :: int
    and neighborQueue :: "nat list" and j :: nat and clusters :: "int list"
    and neighborIdx :: nat and neighborNeighbors :: "nat list"
  assume j: "j < length neighborQueue"
    and nn: "getNeighbors embeddings neighborIdx eps = Inr neighborNeighbors"
  let ?q = "if real (length neighborNeighbors) \<ge> minPoints
            then pushNew neighborQueue neighborNeighbors else neighborQueue"
  have "card ({..< length embeddings} - set ?q) + length ?q =
        card ({..< length embeddings} - set neighborQueue) + length neighborQueue"
    using pushNew_measure [OF getNeighbors_bound [OF nn], of neighborQueue] by simp
  with j show "((embeddings, eps, minPoints, clusterId, ?q, Suc j, clusters[neighborIdx := clusterId]),
         (embeddings, eps, minPoints, clusterId, neighborQueue, j, clusters))
        \<in> measure (\<lambda>(embeddings, eps, minPoints, clusterId, neighborQueue, j, clusters).
          card ({..< length embeddings} - set neighborQueue) + length neighborQueue - j)"
    by simp
next
  fix embeddings :: "Embedding list" and eps minPoints :: real and clusterId :: int
    and neighborQueue :: "nat list" and j :: nat and clusters :: "int list"
  assume "j < length neighborQueue"
  then show "((embeddings, eps, minPoints, clusterId, neighborQueue, Suc j, clusters),
         (embeddings, eps, minPoints, clusterId, neighborQueue, j, clusters))
        \<in> measure (\<lambda>(embeddings, eps, minPoints, clusterId, neighborQueue, j, clusters).
          card ({..< length embeddings} - set neighborQueue) + length neighborQueue - j)"
    by simp
qed

declare expandCluster.simps [simp del]

text \<open>
  The outer loop \<open>for (let i = 0; i < n; i++)\<close> with its state: the label array
  \<open>clusters\<close> and the counter \<open>clusterId\<close>. There is no check of \<open>eps\<close> or
  \<open>minPoints\<close> anywhere in the function.
\<close>

function dbscanLoop ::
  "Embedding list \<Rightarrow> real \<Rightarrow> real \<Rightarrow> nat \<Rightarrow> int \<Rightarrow> int list \<Rightarrow> error + int list" where
  "dbscanLoop embeddings eps minPoints i clusterId clusters =
     (if i < length embeddings then
        (if \<not> (i < length clusters \<and> clusters ! i = - 1)
         then dbscanLoop embeddings eps minPoints (Suc i) clusterId clusters
         else
           (case getNeighbors embeddings i eps of
              Inl err \<Rightarrow> Inl err
            | Inr neighbors \<Rightarrow>
                if real (length neighbors) < minPoints
                then dbscanLoop embeddings eps minPoints (Suc i) clusterId clusters
                else
                  (case expandCluster embeddings eps minPoints clusterId neighbors 0
                          (clusters[i := clusterId]) of
                     Inl err \<Rightarrow> Inl err
                   | Inr clusters' \<Rightarrow>
                       dbscanLoop embeddings eps minPoints (Suc i) (clusterId + 1) clusters')))
      else Inr clusters)"
  by pat_completeness auto
termination
  by (relation "measure (\<lambda>(embeddings, eps, minPoints, i, clusterId, clusters).
          length embeddings - i)") auto

declare dbscanLoop.simps [simp del]

definition dbscanClustering :: "Embedding list \<Rightarrow> real \<Rightarrow> real \<Rightarrow> error + int list" where
  "dbscanClustering embeddings eps minPoints =
     dbscanLoop embeddings eps minPoints 0 0 (replicate (length embeddings) (- 1))"


text \<open>
  \<open>groupByCluster\<close> fills a JavaScript \<open>Map\<close>, which iterates in the order in which
  its keys were first set: an association list, new keys added at the end. A key is
  \<open>clusterIds[i]\<close>, which is \<open>undefined\<close> (here \<open>None\<close>) when \<open>clusterIds\<close> is
  shorter than \<open>items\<close>; \<open>undefined !== -1\<close> holds.
\<close>

type_synonym ('k, 'v) jsMap = "('k \<times> 'v) list"

fun mapPush :: "'k \<Rightarrow> 'a \<Rightarrow> ('k, 'a list) jsMap \<Rightarrow> ('k, 'a list) jsMap" where
  "mapPush k x [] = [(k, [x])]"
| "mapPush k x ((k', xs) # m) =
     (if k' = k then (k', xs @ [x]) # m else (k', xs) # mapPush k x m)"

fun groupLoop ::
  "'a list \<Rightarrow> int list \<Rightarrow> (int option, 'a list) jsMap \<Rightarrow> (int option, 'a list) jsMap" where
  "groupLoop [] clusterIds clusters = clusters"
| "groupLoop (item # items) clusterIds clusters =
     (let clusterId = (case clusterIds of [] \<Rightarrow> None | c # _ \<Rightarrow> Some c) in
      groupLoop items (tl clusterIds)
        (if clusterId \<noteq> Some (- 1) then mapPush clusterId item clusters else clusters))"

definition groupByCluster :: "'a list \<Rightarrow> int list \<Rightarrow> (int option, 'a list) jsMap" where
  "groupByCluster items clusterIds = groupLoop items clusterIds []"

text \<open>
  \<open>calculateClusterCentroid\<close>. A coordinate of the result is a JavaScript number that may
  be NaN (here \<open>None\<close>): \<open>embedding[i]\<close> is \<open>undefined\<close> for an embedding shorter than
  the first one, and \<open>centroid[i] += undefined\<close> gives NaN.
\<close>

definition readNum :: "Embedding \<Rightarrow> nat \<Rightarrow> real option" where
  "readNum embedding i = (if i < length embedding then Some (embedding ! i) else None)"

definition addNum :: "real option \<Rightarrow> real option \<Rightarrow> real option" where
  "addNum a b = (case (a, b) of (Some x, Some y) \<Rightarrow> Some (x + y) | _ \<Rightarrow> None)"

definition calculateClusterCentroid :: "Embedding list \<Rightarrow> real option list option" where
  "calculateClusterCentroid embeddings =
     (case embeddings of
        [] \<Rightarrow> None
      | first # _ \<Rightarrow>
          (let dimensions = length first;
               totals = foldl (\<lambda>centroid embedding.
                        map (\<lambda>i. addNum (centroid ! i) (readNum embedding i)) [0 ..< dimensions])
                      (replicate dimensions (Some 0)) embeddings
           in Some (map (map_option (\<lambda>c. c / real (length embeddings))) totals)))"

section \<open>Strings and the subject catalog\<close>

text \<open>
  Strings are byte lists. Case folding (\<open>COLLATE NOCASE\<close>, \<open>LIKE\<close> and \<open>LOWER\<close> of
  SQLite, \<open>toLowerCase\<close> of JavaScript) is modelled on the ASCII letters, and \<open>trim\<close>
  on the ASCII white space; other characters are left as they are.
\<close>

definition lowerChar :: "char \<Rightarrow> char" where
  "lowerChar c =
     (let n = (of_char c :: nat) in if 65 \<le> n \<and> n \<le> 90 then char_of (n + 32) else c)"

definition toLowerCase :: "string \<Rightarrow> string" where
  "toLowerCase s = map lowerChar s"



text \<open>\<open>name.split(' ')[0]\<close>: the characters before the first space.\<close>

definition firstToken :: "string \<Rightarrow> string" where
  "firstToken name = takeWhile (\<lambda>c. c \<noteq> CHR '' '') name"

text \<open>
  The \<open>LIKE\<close> operator of SQLite, pattern first: \<open>%\<close> stands for any run of
  characters, \<open>_\<close> for any one character, and any other character for itself, ASCII
  letters compared without case. The source escapes neither wildcard in a name.
\<close>

fun likeMatch :: "string \<Rightarrow> string \<Rightarrow> bool" where
  "likeMatch [] s = (s = [])"
| "likeMatch (p # ps) s =
     (if p = CHR ''%'' then
        (likeMatch ps s \<or> (case s of [] \<Rightarrow> False | _ # s' \<Rightarrow> likeMatch (p # ps) s'))
      else
        (case s of
           [] \<Rightarrow> False
         | c # s' \<Rightarrow> (p = CHR ''_'' \<or> lowerChar p = lowerChar c) \<and> likeMatch ps s'))"

text \<open>The pattern \<open>`%${name}%`\<close>.\<close>

definition containsPattern :: "string \<Rightarrow> string" where
  "containsPattern name = CHR ''%'' # name @ [CHR ''%'']"

record Subject =
  subject_id :: int
  subject :: string
  subject_type :: string

text \<open>
  \<open>db.get\<close> gives the first row of a result, or \<open>undefined\<close>. A table is the list of
  its rows in the order in which a scan returns them; where SQL leaves the order of
  equal rows open, the model keeps the order of the table.
\<close>

definition dbGet :: "'a list \<Rightarrow> 'a option" where
  "dbGet rows = (case rows of [] \<Rightarrow> None | row # _ \<Rightarrow> Some row)"

text \<open>\<open>SELECT id, subject FROM subjects WHERE subject = ? COLLATE NOCASE\<close>\<close>

definition exactQuery :: "Subject list \<Rightarrow> string \<Rightarrow> Subject list" where
  "exactQuery subjects name =
     filter (\<lambda>row. toLowerCase (subject row) = toLowerCase name) subjects"

text \<open>
  The fuzzy query: \<open>CASE WHEN subject LIKE ?1 THEN 1 WHEN subject LIKE ?2 THEN 2 ELSE 3
  END AS match_priority ... WHERE subject LIKE ?1 OR subject LIKE ?2 ORDER BY
  match_priority, LENGTH(subject) LIMIT n\<close>.
\<close>

definition match_priority :: "string \<Rightarrow> string \<Rightarrow> Subject \<Rightarrow> nat" where
  "match_priority patternExact patternPartial row =
     (if likeMatch patternExact (subject row) then 1
      else if likeMatch patternPartial (subject row) then 2
      else 3)"

definition fuzzyQuery :: "Subject list \<Rightarrow> string \<Rightarrow> string \<Rightarrow> nat \<Rightarrow> Subject list" where
  "fuzzyQuery subjects patternExact patternPartial limit =
     take limit
       (sort_key (\<lambda>row. (match_priority patternExact patternPartial row, length (subject row)))
          (filter (\<lambda>row. likeMatch patternExact (subject row) \<or>
                          likeMatch patternPartial (subject row)) subjects))"


section \<open>The find-subject-relationship tool\<close>

subsection \<open>The tables of wafer.db that the tool reads and writes\<close>

record Source =
  source_id :: int
  source_text :: string
  source_tags :: string
  dates :: string
  group_id :: int
  alias_id :: "int option"

record SourceGroup =
  source_group_id :: int
  mapping_id :: int
  vector :: "string option"
  group_tags :: string

record Mapping =
  mapping_row_id :: int
  mapping_type :: string
  app_name :: "string option"
  db_filename :: "string option"
  table_name :: "string option"

record SourceSubject =
  ss_source_id :: int
  ss_subject_id :: int
  score :: int

text \<open>
  A row of \<open>subject_relationships\<close>. \<open>(subject_1, subject_2)\<close> is the conflict target of
  the upsert; the key column \<open>id\<close> is not read or written by the tool and is left out.
\<close>

record SubjectRelationship =
  subject_1 :: int
  subject_2 :: int
  relationship_summary :: "string option"
  relationship_embedding :: "string option"
  updated_at :: string

record database =
  subjects :: "Subject list"
  sources :: "Source list"
  source_groups :: "SourceGroup list"
  source_subjects :: "SourceSubject list"
  mappings :: "Mapping list"
  subject_relationships :: "SubjectRelationship list"

text \<open>
  What the tool takes from outside the source files: whether the database file exists;
  the \<open>CHECK\<close> constraint of \<open>subject_relationships\<close> that the comment at the ordering
  of the ids refers to (its text is in the schema, not in the source); the value of
  \<open>datetime('now')\<close>; \<open>JSON.parse\<close> on a stored vector (\<open>None\<close>: it throws); the model
  call \<open>generateContent\<close> followed by \<open>getResponseText\<close>, given the prompt and the
  time limit in milliseconds of its abort signal (\<open>Inl\<close>: the call throws, a time-out
  included; \<open>Inr\<close>: the response text, if any); and the two prompt templates.
  Reads and writes of an open database do not fail in the model, the \<open>CHECK\<close>
  constraint apart.
\<close>

record env =
  dbFileExists :: bool
  relationshipCheck :: "int \<Rightarrow> int \<Rightarrow> bool"
  datetimeNow :: string
  JSON_parse :: "string \<Rightarrow> Embedding option"
  generateContent :: "string \<Rightarrow> nat \<Rightarrow> string + string option"
  mainUserTemplate :: "string \<Rightarrow> string \<Rightarrow> string \<Rightarrow> string"
  otherTemplate :: "string \<Rightarrow> string \<Rightarrow> string \<Rightarrow> string"

datatype clusteringCause =
    JsonSyntaxError           \<comment> \<open>\<open>JSON.parse\<close> throws on a stored vector\<close>
  | ClusteringError error     \<comment> \<open>\<open>dbscanClustering\<close> throws\<close>

datatype toolError =
    DatabaseFileNotFound                     \<comment> \<open>\<open>'Database file not found at path: ...'\<close>\<close>
  | NoMatchingSubject string                 \<comment> \<open>\<open>'No matching subject found for ...'\<close>\<close>
  | ProcessClusteringFailed clusteringCause  \<comment> \<open>\<open>'Failed to process clustering: ...'\<close>\<close>
  | GenerateSummaryFailed string
      \<comment> \<open>\<open>'Failed to generate relationship summary: ...'\<close>\<close>
  | UpdateRelationshipFailed                 \<comment> \<open>\<open>'Failed to update relationship: ...'\<close>\<close>
  | NoRow                                    \<comment> \<open>reading \<open>.id\<close> of a missing row\<close>

subsection \<open>Parameter validation\<close>



subsection \<open>Resolving the two names\<close>

text \<open>\<open>results[k]\<close> of \<open>Promise.all\<close>: \<open>undefined\<close> beyond the end, like a missing row.\<close>

definition resultAt :: "'a option list \<Rightarrow> nat \<Rightarrow> 'a option" where
  "resultAt results k = (if k < length results then results ! k else None)"

definition findBestMatchingSubjects ::
  "Subject list \<Rightarrow> string \<Rightarrow> string \<Rightarrow> Subject option \<Rightarrow> Subject option
     \<Rightarrow> toolError + int \<times> int" where
  "findBestMatchingSubjects catalog subject1Name subject2Name subject1Row subject2Row =
     (let queries =
            (if subject1Row = None
             then [dbGet (fuzzyQuery catalog (containsPattern subject1Name)
                            (containsPattern (firstToken subject1Name)) 20)]
             else []) @
            (if subject2Row = None
             then [dbGet (fuzzyQuery catalog (containsPattern subject2Name)
                            (containsPattern (firstToken subject2Name)) 20)]
             else [])
      in if length queries = 0 then
           (case (subject1Row, subject2Row) of
              (Some row1, Some row2) \<Rightarrow> Inr (subject_id row1, subject_id row2)
            | _ \<Rightarrow> Inl NoRow)
         else
           (let finalSubject1 =
                  (case subject1Row of Some row \<Rightarrow> Some row | None \<Rightarrow> resultAt queries 0);
                finalSubject2 =
                  (case subject2Row of
                     Some row \<Rightarrow> Some row
                   | None \<Rightarrow> resultAt queries (if subject1Row \<noteq> None then 0 else 1))
            in case finalSubject1 of
                 None \<Rightarrow> Inl (NoMatchingSubject subject1Name)
               | Some final1 \<Rightarrow>
                   (case finalSubject2 of
                      None \<Rightarrow> Inl (NoMatchingSubject subject2Name)
                    | Some final2 \<Rightarrow> Inr (subject_id final1, subject_id final2))))"

definition findSubjectIdsByName ::
  "Subject list \<Rightarrow> string \<Rightarrow> string \<Rightarrow> toolError + int \<times> int" where
  "findSubjectIdsByName catalog subject1Name subject2Name =
     (let subject1Row = dbGet (exactQuery catalog subject1Name);
          subject2Row = dbGet (exactQuery catalog subject2Name)
      in case (subject1Row, subject2Row) of
           (Some row1, Some row2) \<Rightarrow> Inr (subject_id row1, subject_id row2)
         | _ \<Rightarrow> findBestMatchingSubjects catalog subject1Name subject2Name
                  subject1Row subject2Row)"

subsection \<open>Shared sources and their clusters\<close>

text \<open>
  The rows of the query of \<open>dbscanClusterSubjectEmbeddings\<close>, before grouping: the
  joins of \<open>sources\<close>, \<open>source_groups\<close>, \<open>source_subjects\<close> and \<open>subjects\<close>, the left
  join of \<open>mappings\<close>, and the \<open>WHERE\<close> clause \<open>LOWER(sub.subject) IN (...) AND g.vector
  IS NOT NULL\<close>.
\<close>

definition leftJoin :: "('a \<Rightarrow> bool) \<Rightarrow> 'a list \<Rightarrow> 'a option list" where
  "leftJoin on table =
     (case filter on table of [] \<Rightarrow> [None] | matches \<Rightarrow> map Some matches)"

definition joinedRows ::
  "database \<Rightarrow> string list \<Rightarrow> (Source \<times> SourceGroup \<times> Subject \<times> Mapping option) list" where
  "joinedRows db lowered =
     [(s, g, sub, m).
        s \<leftarrow> sources db,
        g \<leftarrow> source_groups db, group_id s = source_group_id g,
        ss \<leftarrow> source_subjects db, source_id s = ss_source_id ss,
        sub \<leftarrow> subjects db, ss_subject_id ss = subject_id sub,
        m \<leftarrow> leftJoin (\<lambda>m. mapping_id g = mapping_row_id m) (mappings db),
        toLowerCase (subject sub) \<in> set lowered \<and> vector g \<noteq> None]"

record Row =
  row_source :: Source
  row_sourceGroup :: SourceGroup
  row_mapping :: "Mapping option"

text \<open>
  \<open>GROUP BY s.id HAVING COUNT(DISTINCT LOWER(sub.subject)) = ? ORDER BY s.id\<close>: one
  row for each source id, taken from the first joined row of that source. The grouping
  column is the id of the source, not the id of its group.
\<close>

definition sharedSourcesQuery :: "database \<Rightarrow> string list \<Rightarrow> nat \<Rightarrow> Row list" where
  "sharedSourcesQuery db lowered wantCount =
     (let joined = joinedRows db lowered in
      concat (map
        (\<lambda>k. let grp = filter (\<lambda>(s, g, sub, m). source_id s = k) joined in
              if length (remdups (map (\<lambda>(s, g, sub, m). toLowerCase (subject sub)) grp))
                   = wantCount
              then (case grp of
                      [] \<Rightarrow> []
                    | (s, g, sub, m) # _ \<Rightarrow>
                        [\<lparr>row_source = s, row_sourceGroup = g, row_mapping = m\<rparr>])
              else [])
        (sort (remdups (map (\<lambda>(s, g, sub, m). source_id s) joined)))))"

record JoinedSourceGroup =
  sourceGroup :: SourceGroup
  source :: Source
  mapping :: "Mapping option"

text \<open>An element \<open>{ group, vector }\<close> of the array \<open>sourceGroups\<close>.\<close>

record ClusterItem =
  item_group :: JoinedSourceGroup
  item_vector :: Embedding

text \<open>
  The loop over the rows: a row whose vector is empty is skipped, every other row
  gives one element. \<open>None\<close>: \<open>JSON.parse\<close> throws. The parsed value is taken to be an
  array of numbers, as its type annotation says.
\<close>

fun buildSourceGroups ::
  "(string \<Rightarrow> Embedding option) \<Rightarrow> Row list \<Rightarrow> ClusterItem list \<Rightarrow> ClusterItem list option" where
  "buildSourceGroups parse [] sourceGroups = Some sourceGroups"
| "buildSourceGroups parse (row # rows) sourceGroups =
     (case vector (row_sourceGroup row) of
        None \<Rightarrow> buildSourceGroups parse rows sourceGroups
      | Some text \<Rightarrow>
          if text = [] then buildSourceGroups parse rows sourceGroups
          else
            (case parse text of
               None \<Rightarrow> None
             | Some parsed \<Rightarrow>
                 buildSourceGroups parse rows
                   (sourceGroups @
                    [\<lparr>item_group =
                        \<lparr>sourceGroup = row_sourceGroup row, source = row_source row,
                         mapping = row_mapping row\<rparr>,
                      item_vector = parsed\<rparr>])))"

text \<open>The array handed to \<open>dbscanClustering\<close>, for a non-empty list of subject names.\<close>

definition clusterInput :: "env \<Rightarrow> database \<Rightarrow> string list \<Rightarrow> ClusterItem list option" where
  "clusterInput e db subjectNames =
     buildSourceGroups (JSON_parse e)
       (sharedSourcesQuery db (map toLowerCase subjectNames) (length subjectNames)) []"

text \<open>The loop over the entries of the \<open>Map\<close>, in its iteration order.\<close>

fun emitClusters ::
  "(int option, ClusterItem list) jsMap
     \<Rightarrow> (JoinedSourceGroup list \<times> real option list) list
     \<Rightarrow> (JoinedSourceGroup list \<times> real option list) list" where
  "emitClusters [] out = out"
| "emitClusters ((clusterId, clusterItems) # clusters) out =
     (case calculateClusterCentroid (map item_vector clusterItems) of
        None \<Rightarrow> emitClusters clusters out
      | Some centroid \<Rightarrow>
          emitClusters clusters (out @ [(map item_group clusterItems, centroid)]))"

definition dbscanClusterSubjectEmbeddings ::
  "env \<Rightarrow> database \<Rightarrow> string list \<Rightarrow> real \<Rightarrow> real
     \<Rightarrow> toolError + (JoinedSourceGroup list \<times> real option list) list" where
  "dbscanClusterSubjectEmbeddings e db subjectNames eps minPoints =
     (if length subjectNames = 0 then Inr []
      else if sharedSourcesQuery db (map toLowerCase subjectNames) (length subjectNames) = []
      then Inr []
      else
        (case clusterInput e db subjectNames of
           None \<Rightarrow> Inl (ProcessClusteringFailed JsonSyntaxError)
         | Some sourceGroups \<Rightarrow>
             if length sourceGroups = 0 then Inr []
             else
               (case dbscanClustering (map item_vector sourceGroups) eps minPoints of
                  Inl err \<Rightarrow> Inl (ProcessClusteringFailed (ClusteringError err))
                | Inr clusterIds \<Rightarrow>
                    Inr (emitClusters (groupByCluster sourceGroups clusterIds) []))))"

subsection \<open>Summary, cache and the tool's entry point\<close>

definition createSubjectUnderstandingPrompt ::
  "env \<Rightarrow> string \<Rightarrow> string \<Rightarrow> string \<Rightarrow> string" where
  "createSubjectUnderstandingPrompt e sourcesText subject1 subject2 =
     (let isMainUserInvolved = (subject1 = ''Sam Hall'' \<or> subject2 = ''Sam Hall'');
          mainUser = ''Sam Hall'';
          otherSubject = (if subject1 = mainUser then subject2 else subject1)
      in if isMainUserInvolved then mainUserTemplate e mainUser otherSubject sourcesText
         else otherTemplate e subject1 subject2 sourcesText)"

text \<open>
  \<open>callGeminiForRelationshipSummary\<close>: the model is called with
  \<open>AbortSignal.timeout(30000)\<close>; whatever the call throws is thrown again as
  \<open>'Failed to generate relationship summary: ...'\<close>.
\<close>

definition callGeminiForRelationshipSummary :: "env \<Rightarrow> string \<Rightarrow> toolError + string" where
  "callGeminiForRelationshipSummary e prompt =
     (case generateContent e prompt 30000 of
        Inl message \<Rightarrow> Inl (GenerateSummaryFailed message)
      | Inr relationshipSummary \<Rightarrow>
          Inr (case relationshipSummary of
                 None \<Rightarrow> ''Unable to generate relationship summary''
               | Some text \<Rightarrow>
                   if text = [] then ''Unable to generate relationship summary'' else text))"

text \<open>\<open>sampledSources.join('\n')\<close>\<close>

fun joinLines :: "string list \<Rightarrow> string" where
  "joinLines [] = []"
| "joinLines [line] = line"
| "joinLines (line # rest) = line @ [CHR 0x0A] @ joinLines rest"

text \<open>The samples of one cluster: its first \<open>Math.min(5, clusterSources.length)\<close> texts.\<close>

definition sampleCluster :: "JoinedSourceGroup list \<Rightarrow> string list" where
  "sampleCluster clusterSources =
     map (\<lambda>joined. source_text (source joined))
       (take (min 5 (length clusterSources)) clusterSources)"

text \<open>
  The names handed to the clustering: \<open>mainUserId\<close> is the constant \<open>1\<close>; when one
  of the ordered ids is the main user, only one name is kept.
\<close>

definition clusterSubjects :: "int \<Rightarrow> int \<Rightarrow> string \<Rightarrow> string \<Rightarrow> string list" where
  "clusterSubjects firstId secondId subject1Name subject2Name =
     (let mainUserId = 1 in
      if firstId = mainUserId then [subject2Name]
      else if secondId = mainUserId then [subject1Name]
      else [subject1Name, subject2Name])"

text \<open>The sampling loop over the clusters and the prompt made of its result.\<close>

definition relationshipPrompt ::
  "env \<Rightarrow> (JoinedSourceGroup list \<times> real option list) list \<Rightarrow> string \<Rightarrow> string \<Rightarrow> string" where
  "relationshipPrompt e clustersWithCentroids subject1Name subject2Name =
     (let sampledSources =
            concat (map (\<lambda>(clusterSources, centroid). sampleCluster clusterSources)
                      clustersWithCentroids);
          sourcesText = joinLines sampledSources
      in createSubjectUnderstandingPrompt e sourcesText subject1Name subject2Name)"

definition generateRelationshipSummary ::
  "env \<Rightarrow> database \<Rightarrow> int \<Rightarrow> int \<Rightarrow> string \<Rightarrow> string \<Rightarrow> toolError + string option" where
  "generateRelationshipSummary e db firstId secondId subject1Name subject2Name =
     (case dbscanClusterSubjectEmbeddings e db
             (clusterSubjects firstId secondId subject1Name subject2Name) (2 / 10) 2 of
        Inl err \<Rightarrow> Inl err
      | Inr clustersWithCentroids \<Rightarrow>
          if length clustersWithCentroids = 0 then Inr None
          else
            (case callGeminiForRelationshipSummary e
                    (relationshipPrompt e clustersWithCentroids subject1Name subject2Name) of
               Inl err \<Rightarrow> Inl err
             | Inr summary \<Rightarrow> Inr (Some summary)))"

text \<open>
  \<open>SELECT relationship_summary FROM subject_relationships WHERE subject_1 = ? AND
  subject_2 = ?\<close>
\<close>

definition relationshipQuery ::
  "SubjectRelationship list \<Rightarrow> int \<Rightarrow> int \<Rightarrow> SubjectRelationship list" where
  "relationshipQuery table firstId secondId =
     filter (\<lambda>row. subject_1 row = firstId \<and> subject_2 row = secondId) table"

text \<open>
  \<open>updateSubjectRelationship\<close>: \<open>INSERT ... ON CONFLICT(subject_1, subject_2) DO UPDATE
  SET relationship_summary = excluded.relationship_summary, updated_at =
  datetime('now')\<close>. The summary may be \<open>null\<close>.
\<close>

definition updateSubjectRelationship ::
  "env \<Rightarrow> SubjectRelationship list \<Rightarrow> int \<Rightarrow> int \<Rightarrow> string option
     \<Rightarrow> toolError + SubjectRelationship list" where
  "updateSubjectRelationship e table firstId secondId relationshipSummary =
     (if \<not> relationshipCheck e firstId secondId then Inl UpdateRelationshipFailed
      else if relationshipQuery table firstId secondId \<noteq> [] then
        Inr (map (\<lambda>row. if subject_1 row = firstId \<and> subject_2 row = secondId
                         then row\<lparr>relationship_summary := relationshipSummary,
                                  updated_at := datetimeNow e\<rparr>
                         else row) table)
      else
        Inr (table @
             [\<lparr>subject_1 = firstId, subject_2 = secondId,
               relationship_summary = relationshipSummary,
               relationship_embedding = None, updated_at = datetimeNow e\<rparr>]))"

text \<open>The ordering of the two resolved ids at the head of the lookup.\<close>

definition orderIds :: "int \<Rightarrow> int \<Rightarrow> int \<times> int" where
  "orderIds subject1Id subject2Id =
     (if subject1Id < subject2Id then (subject1Id, subject2Id) else (subject2Id, subject1Id))"

text \<open>\<open>value || 'No shared sources found'\<close>\<close>

definition orNoSharedSources :: "string option \<Rightarrow> string" where
  "orNoSharedSources relationshipSummary =
     (case relationshipSummary of
        None \<Rightarrow> ''No shared sources found''
      | Some text \<Rightarrow> if text = [] then ''No shared sources found'' else text)"

text \<open>
  The test \<open>row && row.relationship_summary\<close>: a row with a summary that is neither
  \<open>null\<close> nor empty.
\<close>

definition existingSummary :: "SubjectRelationship option \<Rightarrow> string option" where
  "existingSummary row =
     (case row of
        None \<Rightarrow> None
      | Some r \<Rightarrow>
          (case relationship_summary r of
             None \<Rightarrow> None
           | Some text \<Rightarrow> if text = [] then None else Some text))"

text \<open>
  \<open>getOrCreateSubjectRelationship\<close>: the outcome of the promise and the database after
  it.
\<close>

definition getOrCreateSubjectRelationship ::
  "env \<Rightarrow> database \<Rightarrow> string \<Rightarrow> string \<Rightarrow> (toolError + string) \<times> database" where
  "getOrCreateSubjectRelationship e db subject1Name subject2Name =
     (if \<not> dbFileExists e then (Inl DatabaseFileNotFound, db)
      else
        (case findSubjectIdsByName (subjects db) subject1Name subject2Name of
           Inl err \<Rightarrow> (Inl err, db)
         | Inr (subject1Id, subject2Id) \<Rightarrow>
             (case orderIds subject1Id subject2Id of
                (firstId, secondId) \<Rightarrow>
                  (case existingSummary
                          (dbGet (relationshipQuery (subject_relationships db)
                                    firstId secondId)) of
                     Some summary \<Rightarrow> (Inr summary, db)
                   | None \<Rightarrow>
                       (case generateRelationshipSummary e db firstId secondId
                               subject1Name subject2Name of
                          Inl err \<Rightarrow> (Inl err, db)
                        | Inr relationshipSummary \<Rightarrow>
                            (case updateSubjectRelationship e (subject_relationships db)
                                    firstId secondId relationshipSummary of
                               Inl err \<Rightarrow> (Inl err, db)
                             | Inr table \<Rightarrow>
                                 (Inr (orNoSharedSources relationshipSummary),
                                  db\<lparr>subject_relationships := table\<rparr>)))))))"



subsection \<open>Notions used to state the properties\<close>

text \<open>The elements of a list in the order of their first occurrence.\<close>

fun firstOccurrences :: "'a list \<Rightarrow> 'a list" where
  "firstOccurrences [] = []"
| "firstOccurrences (x # xs) = x # firstOccurrences (removeAll x xs)"

text \<open>The items that carry the label \<open>c\<close>, in the order of the input.\<close>

definition itemsLabelled :: "'a list \<Rightarrow> int list \<Rightarrow> int \<Rightarrow> 'a list" where
  "itemsLabelled items clusterIds c = map fst (filter (\<lambda>(item, l). l = c) (zip items clusterIds))"

subsection \<open>Example rows\<close>

definition exampleSource :: "int \<Rightarrow> int \<Rightarrow> string \<Rightarrow> Source" where
  "exampleSource sid gid text =
     \<lparr>source_id = sid, source_text = text, source_tags = [], dates = [],
      group_id = gid, alias_id = None\<rparr>"

definition exampleGroup :: "int \<Rightarrow> string option \<Rightarrow> SourceGroup" where
  "exampleGroup gid vec =
     \<lparr>source_group_id = gid, mapping_id = 0, vector = vec, group_tags = []\<rparr>"

definition exampleSubject :: "int \<Rightarrow> string \<Rightarrow> Subject" where
  "exampleSubject sid name = \<lparr>subject_id = sid, subject = name, subject_type = ''person''\<rparr>"

definition exampleItem :: "int \<Rightarrow> int \<Rightarrow> string \<Rightarrow> Embedding \<Rightarrow> ClusterItem" where
  "exampleItem sid gid text vec =
     \<lparr>item_group =
        \<lparr>sourceGroup = exampleGroup gid (Some ''[]''), source = exampleSource sid gid text,
         mapping = None\<rparr>,
      item_vector = vec\<rparr>"


subsection \<open>An example environment and example databases\<close>

definition exampleParse :: "string \<Rightarrow> Embedding option" where
  "exampleParse text =
     (if text = ''[0,0]'' then Some [0, 0]
      else if text = ''[0,0.1]'' then Some [0, 1 / 10]
      else if text = ''[0.1,0]'' then Some [1 / 10, 0]
      else None)"

text \<open>
  The constraint is \<open>subject_1 < subject_2\<close>; the model call is aborted at a time limit
  of 30000 milliseconds and answers at any other.
\<close>

definition exampleEnv :: env where
  "exampleEnv =
     \<lparr>dbFileExists = True,
      relationshipCheck = (\<lambda>firstId secondId. firstId < secondId),
      datetimeNow = ''2025-01-01 00:00:00'',
      JSON_parse = exampleParse,
      generateContent =
        (\<lambda>prompt timeout. if timeout = 30000 then Inl ''aborted'' else Inr (Some ''late'')),
      mainUserTemplate = (\<lambda>mainUser otherSubject sourcesText. sourcesText),
      otherTemplate = (\<lambda>subject1 subject2 sourcesText. sourcesText)\<rparr>"

definition emptyDb :: database where
  "emptyDb =
     \<lparr>subjects = [], sources = [], source_groups = [], source_subjects = [],
      mappings = [], subject_relationships = []\<rparr>"

text \<open>Two subjects and no sources.\<close>

definition twoSubjectsDb :: database where
  "twoSubjectsDb = emptyDb\<lparr>subjects := [exampleSubject 2 ''Alice'', exampleSubject 3 ''Bob'']\<rparr>"



text \<open>Three sources of three groups close to each other, each linked to both subjects.\<close>

definition threeSourcesDb :: database where
  "threeSourcesDb =
     emptyDb
       \<lparr>subjects := [exampleSubject 2 ''Alice'', exampleSubject 3 ''Bob''],
        sources := [exampleSource 1 10 ''first'', exampleSource 2 11 ''second'',
                    exampleSource 3 12 ''third''],
        source_groups := [exampleGroup 10 (Some ''[0,0]''), exampleGroup 11 (Some ''[0,0.1]''),
                          exampleGroup 12 (Some ''[0.1,0]'')],
        source_subjects :=
          [\<lparr>ss_source_id = 1, ss_subject_id = 2, score = 1\<rparr>,
           \<lparr>ss_source_id = 1, ss_subject_id = 3, score = 1\<rparr>,
           \<lparr>ss_source_id = 2, ss_subject_id = 2, score = 1\<rparr>,
           \<lparr>ss_source_id = 2, ss_subject_id = 3, score = 1\<rparr>,
           \<lparr>ss_source_id = 3, ss_subject_id = 2, score = 1\<rparr>,
           \<lparr>ss_source_id = 3, ss_subject_id = 3, score = 1\<rparr>]\<rparr>"

text \<open>
  Two subjects, no sources, a row of the pair \<open>(2, 3)\<close> without a summary and a row of
  another pair.
\<close>

definition staleRowDb :: database where
  "staleRowDb =
     twoSubjectsDb
       \<lparr>subject_relationships :=
          [\<lparr>subject_1 = 2, subject_2 = 3, relationship_summary = None,
            relationship_embedding = Some ''[1]'', updated_at = ''2024-06-30 12:00:00''\<rparr>,
           \<lparr>subject_1 = 2, subject_2 = 9, relationship_summary = Some ''colleagues'',
            relationship_embedding = None, updated_at = ''2024-06-30 12:00:00''\<rparr>]\<rparr>"

text \<open>
  Six items on a line. With \<open>eps = 0.2\<close> and \<open>minPoints = 2\<close> the item at index 1 starts
  cluster 0 and the item at index 4 starts cluster 1, which takes in the item at
  index 0.
\<close>

definition borderFirstItems :: "ClusterItem list" where
  "borderFirstItems =
     [exampleItem 1 1 ''p0'' [2], exampleItem 2 2 ''p1'' [0], exampleItem 3 3 ''p2'' [1 / 10],
      exampleItem 4 4 ''p3'' [- 1 / 10], exampleItem 5 5 ''p4'' [215 / 100],
      exampleItem 6 6 ''p5'' [23 / 10]]"

section \<open>Properties of the clustering functions\<close>

subsection \<open>Evaluating the neighbourhood test without the square root\<close>

lemma sqrt_le_iff_square:
  "0 \<le> x \<Longrightarrow> sqrt x \<le> e \<longleftrightarrow> 0 \<le> e \<and> x \<le> e * e"
  by (metis abs_of_nonneg real_sqrt_abs2 real_sqrt_ge_0_iff real_sqrt_le_iff
      order_trans real_sqrt_mult_self)

lemma getNeighborsLoop_Cons:
  "getNeighborsLoop (Some p) pointIdx eps i (e # es) neighbors =
     (if i \<noteq> pointIdx then
        (if length p \<noteq> length e then Inl LengthMismatch
         else getNeighborsLoop (Some p) pointIdx eps (Suc i) es
                (if 0 \<le> eps \<and> sumSquares p e \<le> eps * eps
                 then neighbors @ [i] else neighbors))
      else getNeighborsLoop (Some p) pointIdx eps (Suc i) es neighbors)"
  by (simp add: euclideanDistance_def sqrt_le_iff_square sumSquares_nonneg)

lemmas dbscan_eval =
  dbscanClustering_def dbscanLoop.simps expandCluster.simps
  getNeighbors_def getNeighborsLoop_Cons sumSquares_def

subsection \<open>DBSCAN returns labels for every \<open>eps\<close> and \<open>minPoints\<close>\<close>

lemma getNeighborsLoop_total:
  "\<forall>v \<in> set es. length v = length p \<Longrightarrow>
   \<exists>ns. getNeighborsLoop (Some p) pointIdx eps i es acc = Inr ns"
  by (induction es arbitrary: i acc) (auto simp: euclideanDistance_def)

lemma getNeighbors_total:
  assumes "\<forall>v \<in> set embeddings. length v = d" and "i < length embeddings"
  shows "\<exists>ns. getNeighbors embeddings i eps = Inr ns"
proof -
  from assms have "\<forall>v \<in> set embeddings. length v = length (embeddings ! i)" by simp
  from getNeighborsLoop_total [OF this] assms(2) show ?thesis
    by (simp add: getNeighbors_def)
qed

lemma getNeighborsLoop_negative_eps:
  "eps < 0 \<Longrightarrow> getNeighborsLoop point pointIdx eps i es acc = Inr ns \<Longrightarrow> ns = acc"
proof (induction es arbitrary: i acc)
  case Nil
  then show ?case by simp
next
  case (Cons e es)
  have "\<not> sqrt (sumSquares p e) \<le> eps" for p
    using Cons.prems(1) sumSquares_nonneg [of p e] real_sqrt_ge_zero [of "sumSquares p e"]
    by linarith
  with Cons show ?case
    by (auto simp: euclideanDistance_def split: if_splits option.splits)
qed

lemma getNeighbors_negative_eps:
  "eps < 0 \<Longrightarrow> getNeighbors embeddings i eps = Inr ns \<Longrightarrow> ns = []"
  unfolding getNeighbors_def by (rule getNeighborsLoop_negative_eps)

lemma expandCluster_total:
  "\<forall>v \<in> set embeddings. length v = d \<Longrightarrow> length clusters = length embeddings \<Longrightarrow>
    \<exists>result. expandCluster embeddings eps minPoints clusterId neighborQueue j clusters = Inr result \<and>
      length result = length clusters \<and>
      (\<forall>k < length clusters. result ! k = clusters ! k \<or>
          (clusters ! k = - 1 \<and> result ! k = clusterId))"
proof (induction embeddings eps minPoints clusterId neighborQueue j clusters
       rule: expandCluster.induct)
  case (1 embeddings eps minPoints clusterId neighborQueue j clusters)
  note uniform = "1.prems"(1) and len = "1.prems"(2)
  show ?case
  proof (cases "j < length neighborQueue")
    case False
    then show ?thesis by (simp add: expandCluster.simps [of embeddings eps minPoints clusterId neighborQueue j clusters])
  next
    case inside: True
    define neighborIdx where "neighborIdx = neighborQueue ! j"
    show ?thesis
    proof (cases "neighborIdx < length clusters \<and> clusters ! neighborIdx = - 1")
      case False
      from "1.IH"(2) [OF inside neighborIdx_def False uniform len]
      obtain result where
        "expandCluster embeddings eps minPoints clusterId neighborQueue (Suc j) clusters = Inr result"
        "length result = length clusters"
        "\<forall>k < length clusters. result ! k = clusters ! k \<or>
            (clusters ! k = - 1 \<and> result ! k = clusterId)"
        by blast
      with inside False show ?thesis
        by (auto simp: expandCluster.simps [of embeddings eps minPoints clusterId neighborQueue j clusters] neighborIdx_def Let_def)
    next
      case unlabelled: True
      with len have "neighborIdx < length embeddings" by simp
      from getNeighbors_total [OF uniform this]
      obtain neighborNeighbors where
        nn: "getNeighbors embeddings neighborIdx eps = Inr neighborNeighbors" by blast
      let ?q = "if minPoints \<le> real (length neighborNeighbors)
                then pushNew neighborQueue neighborNeighbors else neighborQueue"
      let ?c = "clusters[neighborIdx := clusterId]"
      have len': "length ?c = length embeddings" using len by simp
      from "1.IH"(1) [OF inside neighborIdx_def unlabelled nn uniform len']
      obtain result where
        r: "expandCluster embeddings eps minPoints clusterId ?q (Suc j) ?c = Inr result"
        and rl: "length result = length ?c"
        and rk: "\<forall>k < length ?c. result ! k = ?c ! k \<or> (?c ! k = - 1 \<and> result ! k = clusterId)"
        by blast
      have "result ! k = clusters ! k \<or> (clusters ! k = - 1 \<and> result ! k = clusterId)"
        if k: "k < length clusters" for k
      proof (cases "k = neighborIdx")
        case True
        with rk k unlabelled show ?thesis by auto
      next
        case False
        with rk k show ?thesis by auto
      qed
      with r rl inside unlabelled nn show ?thesis
        by (simp add: expandCluster.simps [of embeddings eps minPoints clusterId neighborQueue j clusters] neighborIdx_def Let_def)
    qed
  qed
qed


lemma dbscanLoop_total:
  "\<forall>v \<in> set embeddings. length v = d \<Longrightarrow> length clusters = length embeddings \<Longrightarrow>
    \<exists>result. dbscanLoop embeddings eps minPoints i clusterId clusters = Inr result \<and>
      length result = length clusters"
proof (induction embeddings eps minPoints i clusterId clusters rule: dbscanLoop.induct)
  case (1 embeddings eps minPoints i clusterId clusters)
  note uniform = "1.prems"(1) and len = "1.prems"(2)
  note step = dbscanLoop.simps [of embeddings eps minPoints i clusterId clusters]
  show ?case
  proof (cases "i < length embeddings")
    case False
    then show ?thesis by (simp add: step)
  next
    case inside: True
    show ?thesis
    proof (cases "i < length clusters \<and> clusters ! i = - 1")
      case False
      with "1.IH"(1) [OF inside _ uniform len] inside show ?thesis
        by (auto simp: step)
    next
      case unlabelled: True
      then have nf: "\<not> \<not> (i < length clusters \<and> clusters ! i = - 1)" by simp
      from getNeighbors_total [OF uniform inside]
      obtain neighbors where nb: "getNeighbors embeddings i eps = Inr neighbors" by blast
      show ?thesis
      proof (cases "real (length neighbors) < minPoints")
        case True
        with "1.IH"(2) [OF inside nf nb True uniform len] inside unlabelled nb show ?thesis
          by (simp add: step)
      next
        case core: False
        have len': "length (clusters[i := clusterId]) = length embeddings" using len by simp
        from expandCluster_total [OF uniform len', of eps minPoints clusterId neighbors 0]
        obtain clusters' where
          ex: "expandCluster embeddings eps minPoints clusterId neighbors 0
                 (clusters[i := clusterId]) = Inr clusters'"
          and exl: "length clusters' = length (clusters[i := clusterId])"
          by blast
        from exl len have l2: "length clusters' = length embeddings" by simp
        from "1.IH"(3) [OF inside nf nb core ex uniform l2] inside unlabelled nb core ex exl
        show ?thesis by (simp add: step)
      qed
    qed
  qed
qed

lemma dbscanClustering_total:
  "\<forall>v \<in> set embeddings. length v = d \<Longrightarrow>
   \<exists>labels. dbscanClustering embeddings eps minPoints = Inr labels \<and>
     length labels = length embeddings"
  using dbscanLoop_total [of embeddings d "replicate (length embeddings) (- 1)" eps minPoints 0 0]
  by (simp add: dbscanClustering_def)


lemma dbscanLoop_negative_eps:
  "eps < 0 \<Longrightarrow> 0 < minPoints \<Longrightarrow>
   dbscanLoop embeddings eps minPoints i clusterId clusters = Inr result \<Longrightarrow> result = clusters"
proof (induction embeddings eps minPoints i clusterId clusters rule: dbscanLoop.induct)
  case (1 embeddings eps minPoints i clusterId clusters)
  note step = dbscanLoop.simps [of embeddings eps minPoints i clusterId clusters]
  show ?case
  proof (cases "i < length embeddings")
    case False
    with "1.prems"(3) show ?thesis by (simp add: step)
  next
    case inside: True
    show ?thesis
    proof (cases "i < length clusters \<and> clusters ! i = - 1")
      case False
      with "1.prems"(3) inside
      have "dbscanLoop embeddings eps minPoints (Suc i) clusterId clusters = Inr result"
        by (auto simp: step)
      from "1.IH"(1) [OF inside _ "1.prems"(1,2) this] False show ?thesis by blast
    next
      case unlabelled: True
      then have nf: "\<not> \<not> (i < length clusters \<and> clusters ! i = - 1)" by simp
      from "1.prems"(3) inside unlabelled
      obtain neighbors where nb: "getNeighbors embeddings i eps = Inr neighbors"
        by (auto simp: step split: sum.splits)
      from getNeighbors_negative_eps [OF "1.prems"(1) nb] have e: "neighbors = []" .
      with "1.prems"(2) have few: "real (length neighbors) < minPoints" by simp
      with "1.prems"(3) inside unlabelled nb
      have "dbscanLoop embeddings eps minPoints (Suc i) clusterId clusters = Inr result"
        by (simp add: step)
      from "1.IH"(2) [OF inside nf nb few "1.prems"(1,2) this] show ?thesis .
    qed
  qed
qed

lemma dbscanLoop_all_core:
  "\<forall>v \<in> set embeddings. length v = d \<Longrightarrow> length clusters = length embeddings \<Longrightarrow>
   minPoints \<le> 0 \<Longrightarrow> 0 \<le> clusterId \<Longrightarrow>
   \<forall>k < length clusters. - 1 \<le> clusters ! k \<Longrightarrow>
   \<forall>k < length clusters. k < i \<longrightarrow> 0 \<le> clusters ! k \<Longrightarrow>
   dbscanLoop embeddings eps minPoints i clusterId clusters = Inr result \<Longrightarrow>
   \<forall>k < length clusters. 0 \<le> result ! k"
proof (induction embeddings eps minPoints i clusterId clusters rule: dbscanLoop.induct)
  case (1 embeddings eps minPoints i clusterId clusters)
  note uniform = "1.prems"(1) and len = "1.prems"(2) and mp = "1.prems"(3)
    and cid = "1.prems"(4) and lower = "1.prems"(5) and before = "1.prems"(6)
    and res = "1.prems"(7)
  note step = dbscanLoop.simps [of embeddings eps minPoints i clusterId clusters]
  show ?case
  proof (cases "i < length embeddings")
    case False
    with res have "result = clusters" by (simp add: step)
    with before False len show ?thesis by simp
  next
    case inside: True
    show ?thesis
    proof (cases "i < length clusters \<and> clusters ! i = - 1")
      case False
      with res inside
      have r: "dbscanLoop embeddings eps minPoints (Suc i) clusterId clusters = Inr result"
        by (auto simp: step)
      from lower inside len have "- 1 \<le> clusters ! i" by simp
      moreover from False inside len have "clusters ! i \<noteq> - 1" by simp
      ultimately have "0 \<le> clusters ! i" by linarith
      with before have "\<forall>k < length clusters. k < Suc i \<longrightarrow> 0 \<le> clusters ! k"
        by (auto simp: less_Suc_eq)
      from "1.IH"(1) [OF inside _ uniform len mp cid lower this r] False show ?thesis by blast
    next
      case unlabelled: True
      then have nf: "\<not> \<not> (i < length clusters \<and> clusters ! i = - 1)" by simp
      from res inside unlabelled
      obtain neighbors where nb: "getNeighbors embeddings i eps = Inr neighbors"
        by (auto simp: step split: sum.splits)
      from mp have core: "\<not> real (length neighbors) < minPoints" by simp
      let ?c = "clusters[i := clusterId]"
      have len': "length ?c = length embeddings" using len by simp
      from expandCluster_total [OF uniform len', of eps minPoints clusterId neighbors 0]
      obtain clusters' where
        ex: "expandCluster embeddings eps minPoints clusterId neighbors 0 ?c = Inr clusters'"
        and exl: "length clusters' = length ?c"
        and exk: "\<forall>k < length ?c. clusters' ! k = ?c ! k \<or>
                    (?c ! k = - 1 \<and> clusters' ! k = clusterId)"
        by blast
      from exl len have l2: "length clusters' = length embeddings" by simp
      from res inside unlabelled nb core ex
      have r: "dbscanLoop embeddings eps minPoints (Suc i) (clusterId + 1) clusters' = Inr result"
        by (simp add: step)
      have lower': "\<forall>k < length clusters'. - 1 \<le> clusters' ! k"
      proof (intro allI impI)
        fix k assume k: "k < length clusters'"
        with exl have k': "k < length ?c" by simp
        from lower k exl have "- 1 \<le> clusters ! k" by simp
        with exk k' cid show "- 1 \<le> clusters' ! k"
          by (cases "k = i") (auto simp: nth_list_update)
      qed
      have before': "\<forall>k < length clusters'. k < Suc i \<longrightarrow> 0 \<le> clusters' ! k"
      proof (intro allI impI)
        fix k assume k: "k < length clusters'" and ki: "k < Suc i"
        with exl have k': "k < length ?c" by simp
        show "0 \<le> clusters' ! k"
        proof (cases "k = i")
          case True
          with exk k' cid show ?thesis by (auto simp: nth_list_update)
        next
          case False
          with ki have "k < i" by simp
          with before k exl have "0 \<le> clusters ! k" by simp
          with exk k' cid False show ?thesis by (auto simp: nth_list_update)
        qed
      qed
      from cid have cid': "0 \<le> clusterId + 1" by simp
      from "1.IH"(3) [OF inside nf nb core ex uniform l2 mp cid' lower' before' r] exl
      show ?thesis by simp
    qed
  qed
qed


lemma expandCluster_length:
  "expandCluster embeddings eps minPoints clusterId neighborQueue j clusters = Inr result \<Longrightarrow>
   length result = length clusters"
proof (induction embeddings eps minPoints clusterId neighborQueue j clusters
       rule: expandCluster.induct)
  case (1 embeddings eps minPoints clusterId neighborQueue j clusters)
  note step = expandCluster.simps [of embeddings eps minPoints clusterId neighborQueue j clusters]
  show ?case
  proof (cases "j < length neighborQueue")
    case False
    with "1.prems" show ?thesis by (simp add: step)
  next
    case inside: True
    define neighborIdx where "neighborIdx = neighborQueue ! j"
    show ?thesis
    proof (cases "neighborIdx < length clusters \<and> clusters ! neighborIdx = - 1")
      case False
      with "1.prems" inside
      have "expandCluster embeddings eps minPoints clusterId neighborQueue (Suc j) clusters
              = Inr result"
        by (auto simp: step neighborIdx_def Let_def)
      from "1.IH"(2) [OF inside neighborIdx_def False this] show ?thesis .
    next
      case unlabelled: True
      with "1.prems" inside obtain neighborNeighbors where
        nn: "getNeighbors embeddings neighborIdx eps = Inr neighborNeighbors"
        and r: "expandCluster embeddings eps minPoints clusterId
                  (if minPoints \<le> real (length neighborNeighbors)
                   then pushNew neighborQueue neighborNeighbors else neighborQueue)
                  (Suc j) (clusters[neighborIdx := clusterId]) = Inr result"
        by (auto simp: step neighborIdx_def Let_def split: sum.splits)
      from "1.IH"(1) [OF inside neighborIdx_def unlabelled nn r] show ?thesis by simp
    qed
  qed
qed

lemma dbscanLoop_length:
  "dbscanLoop embeddings eps minPoints i clusterId clusters = Inr result \<Longrightarrow>
   length result = length clusters"
proof (induction embeddings eps minPoints i clusterId clusters rule: dbscanLoop.induct)
  case (1 embeddings eps minPoints i clusterId clusters)
  note step = dbscanLoop.simps [of embeddings eps minPoints i clusterId clusters]
  show ?case
  proof (cases "i < length embeddings")
    case False
    with "1.prems" show ?thesis by (simp add: step)
  next
    case inside: True
    show ?thesis
    proof (cases "i < length clusters \<and> clusters ! i = - 1")
      case False
      with "1.prems" inside
      have "dbscanLoop embeddings eps minPoints (Suc i) clusterId clusters = Inr result"
        by (auto simp: step)
      from "1.IH"(1) [OF inside _ this] False show ?thesis by blast
    next
      case unlabelled: True
      then have nf: "\<not> \<not> (i < length clusters \<and> clusters ! i = - 1)" by simp
      from "1.prems" inside unlabelled
      obtain neighbors where nb: "getNeighbors embeddings i eps = Inr neighbors"
        by (auto simp: step split: sum.splits)
      show ?thesis
      proof (cases "real (length neighbors) < minPoints")
        case True
        with "1.prems" inside unlabelled nb
        have "dbscanLoop embeddings eps minPoints (Suc i) clusterId clusters = Inr result"
          by (simp add: step)
        from "1.IH"(2) [OF inside nf nb True this] show ?thesis .
      next
        case core: False
        with "1.prems" inside unlabelled nb obtain clusters' where
          ex: "expandCluster embeddings eps minPoints clusterId neighbors 0
                 (clusters[i := clusterId]) = Inr clusters'"
          and r: "dbscanLoop embeddings eps minPoints (Suc i) (clusterId + 1) clusters'
                 = Inr result"
          by (auto simp: step split: sum.splits)
        from "1.IH"(3) [OF inside nf nb core ex r] expandCluster_length [OF ex]
        show ?thesis by simp
      qed
    qed
  qed
qed

lemma dbscanClustering_length:
  "dbscanClustering embeddings eps minPoints = Inr labels \<Longrightarrow>
   length labels = length embeddings"
  by (auto simp: dbscanClustering_def dest: dbscanLoop_length)

subsection \<open>The entries of the map built by \<open>groupByCluster\<close>\<close>

lemma mapPush_keys:
  "map fst (mapPush k x m) = (if k \<in> set (map fst m) then map fst m else map fst m @ [k])"
  by (induction k x m rule: mapPush.induct) auto

lemma mapPush_lookup:
  "map_of (mapPush k x m) k' =
     (if k' = k then Some ((case map_of m k of None \<Rightarrow> [] | Some xs \<Rightarrow> xs) @ [x])
      else map_of m k')"
  by (induction k x m rule: mapPush.induct) auto

lemma mapPush_distinct: "distinct (map fst m) \<Longrightarrow> distinct (map fst (mapPush k x m))"
  by (simp add: mapPush_keys)

lemma groupLoop_distinct:
  "distinct (map fst m) \<Longrightarrow> distinct (map fst (groupLoop items ids m))"
  by (induction items arbitrary: ids m) (auto simp: mapPush_distinct Let_def)

lemma filter_neq_conj:
  "filter (\<lambda>k. k \<noteq> a \<and> P k) xs = removeAll a (filter P xs)"
  by (induction xs) auto

lemma groupLoop_keys:
  "length items = length ids \<Longrightarrow>
   map fst (groupLoop items ids m) =
   map fst m @ firstOccurrences (filter (\<lambda>k. k \<notin> set (map fst m)) (map Some (filter (\<lambda>l. l \<noteq> - 1) ids)))"
proof (induction items arbitrary: ids m)
  case Nil
  then show ?case by simp
next
  case (Cons item items)
  then obtain l ids' where ids: "ids = l # ids'" and len: "length items = length ids'"
    by (cases ids) auto
  show ?case
  proof (cases "l = - 1")
    case True
    with Cons.IH [OF len, of m] ids show ?thesis by simp
  next
    case False
    show ?thesis
    proof (cases "Some l \<in> set (map fst m)")
      case True
      with False Cons.IH [OF len, of "mapPush (Some l) item m"] ids show ?thesis
        by (simp add: mapPush_keys)
    next
      case notin: False
      with False Cons.IH [OF len, of "mapPush (Some l) item m"] ids show ?thesis
        by (simp add: mapPush_keys filter_neq_conj)
    qed
  qed
qed

lemma removeAll_map_Some: "removeAll (Some x) (map Some xs) = map Some (removeAll x xs)"
  by (induction xs) auto

lemma firstOccurrences_map_Some: "firstOccurrences (map Some xs) = map Some (firstOccurrences xs)"
  by (induction xs rule: firstOccurrences.induct) (simp_all add: removeAll_map_Some)

lemma groupByCluster_keys:
  "length items = length ids \<Longrightarrow>
   map fst (groupByCluster items ids) = map Some (firstOccurrences (filter (\<lambda>l. l \<noteq> - 1) ids))"
  by (simp add: groupByCluster_def groupLoop_keys firstOccurrences_map_Some)

lemma groupLoop_lookup:
  "length items = length ids \<Longrightarrow> c \<noteq> - 1 \<Longrightarrow>
   map_of (groupLoop items ids m) (Some c) =
     (if itemsLabelled items ids c = [] then map_of m (Some c)
      else Some ((case map_of m (Some c) of None \<Rightarrow> [] | Some xs \<Rightarrow> xs) @ itemsLabelled items ids c))"
proof (induction items arbitrary: ids m)
  case Nil
  then show ?case by (simp add: itemsLabelled_def)
next
  case (Cons item items)
  then obtain l ids' where ids: "ids = l # ids'" and len: "length items = length ids'"
    by (cases ids) auto
  from Cons.IH [OF len Cons.prems(2)] ids Cons.prems(2) show ?case
    by (auto simp: itemsLabelled_def mapPush_lookup split: option.splits)
qed

lemma groupByCluster_lookup:
  "length items = length ids \<Longrightarrow> c \<noteq> - 1 \<Longrightarrow>
   map_of (groupByCluster items ids) (Some c) =
     (if itemsLabelled items ids c = [] then None else Some (itemsLabelled items ids c))"
  by (simp add: groupByCluster_def groupLoop_lookup)

lemma set_firstOccurrences: "set (firstOccurrences xs) = set xs"
  by (induction xs rule: firstOccurrences.induct) auto

lemma distinct_firstOccurrences: "distinct (firstOccurrences xs)"
  by (induction xs rule: firstOccurrences.induct) (auto simp: set_firstOccurrences)

lemma assoc_list_by_keys:
  "distinct (map fst m) \<Longrightarrow> m = map (\<lambda>k. (k, the (map_of m k))) (map fst m)"
proof (induction m)
  case Nil
  then show ?case by simp
next
  case (Cons p m)
  obtain k v where p: "p = (k, v)" by (cases p)
  from Cons.prems p have k: "k \<notin> fst ` set m" and d: "distinct (map fst m)" by auto
  from k have "map (\<lambda>k'. (k', the (map_of ((k, v) # m) k'))) (map fst m)
             = map (\<lambda>k'. (k', the (map_of m k'))) (map fst m)"
    by (intro map_cong) auto
  with Cons.IH [OF d] p show ?case by simp
qed

lemma itemsLabelled_nonempty:
  "length items = length ids \<Longrightarrow> c \<in> set ids \<Longrightarrow> itemsLabelled items ids c \<noteq> []"
proof (induction items arbitrary: ids)
  case Nil
  then show ?case by simp
next
  case (Cons item items)
  then obtain l ids' where ids: "ids = l # ids'" and len: "length items = length ids'"
    by (cases ids) auto
  with Cons show ?case by (auto simp: itemsLabelled_def)
qed

lemma groupByCluster_entries:
  assumes len: "length items = length ids"
  shows "groupByCluster items ids =
         map (\<lambda>c. (Some c, itemsLabelled items ids c)) (firstOccurrences (filter (\<lambda>l. l \<noteq> - 1) ids))"
proof -
  let ?m = "groupByCluster items ids"
  let ?cs = "firstOccurrences (filter (\<lambda>l. l \<noteq> - 1) ids)"
  have keys: "map fst ?m = map Some ?cs" by (rule groupByCluster_keys [OF len])
  have "distinct (map fst ?m)"
    unfolding groupByCluster_def by (rule groupLoop_distinct) simp
  then have "?m = map (\<lambda>k. (k, the (map_of ?m k))) (map fst ?m)"
    by (rule assoc_list_by_keys)
  also have "\<dots> = map (\<lambda>c. (Some c, the (map_of ?m (Some c)))) ?cs"
    by (simp add: keys comp_def)
  also have "\<dots> = map (\<lambda>c. (Some c, itemsLabelled items ids c)) ?cs"
  proof (rule map_cong [OF refl])
    fix c assume "c \<in> set ?cs"
    then have c: "c \<noteq> - 1" "c \<in> set ids" by (auto simp: set_firstOccurrences)
    from itemsLabelled_nonempty [OF len c(2)] groupByCluster_lookup [OF len c(1)]
    show "(Some c, the (map_of ?m (Some c))) = (Some c, itemsLabelled items ids c)"
      by simp
  qed
  finally show ?thesis .
qed

subsection \<open>C1: the three-point example\<close>

text \<open>
  C1, as the claim states it, fails. For \<open>[[0,0],[0,1],[10,10]]\<close>, \<open>eps = 1.5\<close> and
  \<open>minPoints = 2\<close> the result of \<open>dbscanClustering\<close> is not \<open>[0, 0, -1]\<close>.
\<close>

theorem C1_example_counterexample:
  "dbscanClustering [[0, 0], [0, 1], [10, 10]] (3 / 2) 2 \<noteq> Inr [0, 0, - 1]"
  by (simp add: dbscan_eval del: getNeighborsLoop.simps(2))

text \<open>
  C1, amended. \<open>getNeighbors\<close> leaves the point itself out of its neighbourhood, so
  each of the first two points has one neighbour, fewer than \<open>minPoints = 2\<close>: no
  cluster is started and all three labels are \<open>-1\<close>. With \<open>minPoints = 1\<close> the labels
  are \<open>[0, 0, -1]\<close>.
\<close>

theorem C1_example_all_noise:
  "dbscanClustering [[0, 0], [0, 1], [10, 10]] (3 / 2) 2 = Inr [- 1, - 1, - 1] \<and>
   dbscanClustering [[0, 0], [0, 1], [10, 10]] (3 / 2) 1 = Inr [0, 0, - 1]"
  by (simp add: dbscan_eval del: getNeighborsLoop.simps(2))

subsection \<open>C5: no parameter is rejected\<close>

text \<open>
  C5, as the claim states it, fails: \<open>dbscanClustering\<close> has no check of its
  parameters and no \<open>InvalidParameter\<close> failure. With \<open>minPoints = 0\<close>, and with
  \<open>eps = -1\<close>, it returns labels.
\<close>

theorem C5_counterexample:
  "dbscanClustering [[0], [1]] 1 0 = Inr [0, 0] \<and>
   dbscanClustering [[0], [1]] (- 1) 2 = Inr [- 1, - 1]"
  by (simp add: dbscan_eval del: getNeighborsLoop.simps(2))

text \<open>
  C5, amended. On embeddings of one common length \<open>dbscanClustering\<close> returns a label
  for every embedding, whatever \<open>eps\<close> and \<open>minPoints\<close> are. With
  \<open>minPoints \<le> 0\<close> every point counts as a core point and no label is \<open>-1\<close>; with
  \<open>eps < 0\<close> and \<open>minPoints > 0\<close> no point has a neighbour and every label is \<open>-1\<close>.
\<close>

theorem C5_no_parameter_check:
  assumes "\<forall>v \<in> set embeddings. length v = d"
  shows "\<exists>labels. dbscanClustering embeddings eps minPoints = Inr labels \<and>
           length labels = length embeddings \<and>
           (minPoints \<le> 0 \<longrightarrow> (\<forall>l \<in> set labels. 0 \<le> l)) \<and>
           (eps < 0 \<and> 0 < minPoints \<longrightarrow> labels = replicate (length embeddings) (- 1))"
proof -
  let ?init = "replicate (length embeddings) (- 1 :: int)"
  from dbscanClustering_total [OF assms, of eps minPoints]
  obtain labels where
    l: "dbscanClustering embeddings eps minPoints = Inr labels"
    and len: "length labels = length embeddings"
    by blast
  from l have loop: "dbscanLoop embeddings eps minPoints 0 0 ?init = Inr labels"
    by (simp add: dbscanClustering_def)
  have "\<forall>l \<in> set labels. 0 \<le> l" if "minPoints \<le> 0"
  proof -
    from dbscanLoop_all_core [OF assms _ that _ _ _ loop]
    have "\<forall>k < length ?init. 0 \<le> labels ! k" by simp
    with len show ?thesis by (auto simp: in_set_conv_nth)
  qed
  moreover have "labels = ?init" if "eps < 0 \<and> 0 < minPoints"
    using dbscanLoop_negative_eps [OF _ _ loop] that by simp
  ultimately show ?thesis using l len by blast
qed

text \<open>C5, witness: two embeddings of length one, \<open>eps = -1\<close>, \<open>minPoints = 0\<close>.\<close>

theorem C5_no_parameter_check_witness:
  "list_all (\<lambda>v. length v = 1) [[0], [1 :: real]] \<and>
   (\<exists>labels. dbscanClustering [[0], [1]] (- 1) 0 = Inr labels \<and>
      length labels = length [[0], [1 :: real]] \<and> (\<forall>l \<in> set labels. 0 \<le> l))"
proof -
  have uniform: "\<forall>v \<in> set [[0], [1 :: real]]. length v = 1" by simp
  from C5_no_parameter_check [OF uniform, of "- 1" 0] uniform show ?thesis by auto
qed

subsection \<open>C9: noise is dropped; the order of the emitted clusters\<close>

lemma calculateClusterCentroid_None:
  "calculateClusterCentroid embeddings = None \<longleftrightarrow> embeddings = []"
  by (simp add: calculateClusterCentroid_def Let_def split: list.splits)

lemma emitClusters_members:
  "\<forall>(k, clusterItems) \<in> set clusters. clusterItems \<noteq> [] \<Longrightarrow>
   map fst (emitClusters clusters out) =
   map fst out @ map (\<lambda>(k, clusterItems). map item_group clusterItems) clusters"
proof (induction clusters arbitrary: out)
  case Nil
  then show ?case by simp
next
  case (Cons entry clusters)
  obtain k clusterItems where entry: "entry = (k, clusterItems)" by (cases entry)
  with Cons.prems have "clusterItems \<noteq> []" by simp
  then obtain centroid where
    "calculateClusterCentroid (map item_vector clusterItems) = Some centroid"
    using calculateClusterCentroid_None [of "map item_vector clusterItems"] by auto
  with Cons entry show ?case by simp
qed

lemma zip_enumerate_index:
  "((i, item), l) \<in> set (zip (zip [0 ..< length items] items) clusterIds) \<Longrightarrow>
   i < length clusterIds \<and> clusterIds ! i = l"
  by (auto simp: set_zip)

lemma emitted_entries:
  assumes "length items = length clusterIds"
  shows "map fst (emitClusters (groupByCluster items clusterIds) []) =
           map (\<lambda>c. map item_group (itemsLabelled items clusterIds c))
             (firstOccurrences (filter (\<lambda>l. l \<noteq> - 1) clusterIds)) \<and>
         (\<forall>(k, members) \<in> set (groupByCluster (zip [0 ..< length items] items) clusterIds).
            k \<noteq> Some (- 1) \<and> (\<forall>(i, item) \<in> set members. clusterIds ! i \<noteq> - 1))"
proof
  let ?cs = "firstOccurrences (filter (\<lambda>l. l \<noteq> - 1) clusterIds)"
  have nonempty: "\<forall>(k, clusterItems) \<in> set (groupByCluster items clusterIds). clusterItems \<noteq> []"
    using itemsLabelled_nonempty [OF assms]
    by (auto simp: groupByCluster_entries [OF assms] set_firstOccurrences)
  have "map fst (emitClusters (groupByCluster items clusterIds) []) =
          map (\<lambda>(k, clusterItems). map item_group clusterItems)
            (groupByCluster items clusterIds)"
    using emitClusters_members [OF nonempty, of "[]"] by simp
  also have "\<dots> = map (\<lambda>c. map item_group (itemsLabelled items clusterIds c)) ?cs"
    by (simp add: groupByCluster_entries [OF assms] comp_def)
  finally show "map fst (emitClusters (groupByCluster items clusterIds) []) =
          map (\<lambda>c. map item_group (itemsLabelled items clusterIds c)) ?cs" .
next
  let ?items = "zip [0 ..< length items] items"
  have len: "length ?items = length clusterIds" using assms by simp
  show "\<forall>(k, members) \<in> set (groupByCluster ?items clusterIds).
          k \<noteq> Some (- 1) \<and> (\<forall>(i, item) \<in> set members. clusterIds ! i \<noteq> - 1)"
  proof (clarify, intro conjI ballI)
    fix k members
    assume "(k, members) \<in> set (groupByCluster ?items clusterIds)"
    then obtain c where c: "c \<noteq> - 1" "k = Some c"
      and m: "members = itemsLabelled ?items clusterIds c"
      by (auto simp: groupByCluster_entries [OF len] set_firstOccurrences)
    from c show "k \<noteq> Some (- 1)" by simp
    fix p assume "p \<in> set members"
    with m have "(p, c) \<in> set (zip ?items clusterIds)"
      by (auto simp: itemsLabelled_def)
    with zip_enumerate_index [of "fst p" "snd p" c items clusterIds] c
    show "case p of (i, item) \<Rightarrow> clusterIds ! i \<noteq> - 1"
      by (cases p) simp
  qed
qed


text \<open>
  C9, as the claim states it, fails in its second half. Of six one-dimensional
  embeddings clustered with \<open>eps = 0.2\<close> and \<open>minPoints = 2\<close>, the point at index 0 is
  a border point of the cluster started at index 4, which is cluster 1; the cluster
  started at index 1 is cluster 0. The labels are \<open>[1, 0, 0, 0, 1, 1]\<close>, and the map
  of \<open>groupByCluster\<close> holds the entry of label 1 before the entry of label 0.
\<close>

theorem C9_ascending_order_counterexample:
  "dbscanClustering (map item_vector borderFirstItems) (2 / 10) 2 = Inr [1, 0, 0, 0, 1, 1] \<and>
   map fst (groupByCluster borderFirstItems [1, 0, 0, 0, 1, 1]) = [Some 1, Some 0]"
  by (simp add: dbscan_eval groupByCluster_def borderFirstItems_def exampleItem_def
      del: getNeighborsLoop.simps(2))

text \<open>
  C9, amended. For the labels that \<open>dbscanClustering\<close> gives to the vectors of the
  items, the entries are emitted in the order in which their labels first occur in
  the label list (the insertion order of the map), the label \<open>-1\<close> left out, and the
  members of the entry of a label are the items that carry it. With the items
  numbered by their index, no entry has the key \<open>-1\<close> and no member of an entry has
  the label \<open>-1\<close>.
\<close>

theorem C9_emitted_in_first_occurrence_order:
  assumes "dbscanClustering (map item_vector sourceGroups) eps minPoints = Inr clusterIds"
  shows "map fst (emitClusters (groupByCluster sourceGroups clusterIds) []) =
           map (\<lambda>c. map item_group (itemsLabelled sourceGroups clusterIds c))
             (firstOccurrences (filter (\<lambda>l. l \<noteq> - 1) clusterIds)) \<and>
         (\<forall>(k, members)
              \<in> set (groupByCluster (zip [0 ..< length sourceGroups] sourceGroups) clusterIds).
            k \<noteq> Some (- 1) \<and> (\<forall>(i, item) \<in> set members. clusterIds ! i \<noteq> - 1))"
proof -
  from dbscanClustering_length [OF assms] have "length sourceGroups = length clusterIds"
    by simp
  then show ?thesis by (rule emitted_entries)
qed

text \<open>
  C9, witness: the six items of the counterexample; the entry of cluster 1, which
  holds the items at the indices 0, 4 and 5, is emitted before the entry of cluster 0.
\<close>

theorem C9_emitted_in_first_occurrence_order_witness:
  "map fst (emitClusters (groupByCluster borderFirstItems [1, 0, 0, 0, 1, 1]) []) =
     [map item_group [borderFirstItems ! 0, borderFirstItems ! 4, borderFirstItems ! 5],
      map item_group [borderFirstItems ! 1, borderFirstItems ! 2, borderFirstItems ! 3]]"
proof -
  have labels:
    "dbscanClustering (map item_vector borderFirstItems) (2 / 10) 2 = Inr [1, 0, 0, 0, 1, 1]"
    by (simp add: dbscan_eval borderFirstItems_def exampleItem_def
        del: getNeighborsLoop.simps(2))
  from C9_emitted_in_first_occurrence_order [OF labels] show ?thesis
    by (simp add: itemsLabelled_def borderFirstItems_def)
qed

subsection \<open>C10: the members of a cluster are in input order\<close>

text \<open>
  C10. For items and labels of equal length, the keys of the map of \<open>groupByCluster\<close>
  are distinct and none is \<open>-1\<close>; the members of the entry of a label \<open>c\<close> are the
  items whose label is \<open>c\<close>, in the order of the input; every label other than \<open>-1\<close>
  has its entry. The samples of a cluster, \<open>sampleCluster\<close> of its members, are
  the texts of its first five members in input order, or of all when there are fewer.
\<close>

theorem C10_clusters_in_input_order:
  assumes "length items = length clusterIds"
  shows "distinct (map fst (groupByCluster items clusterIds)) \<and>
         (\<forall>(k, members) \<in> set (groupByCluster items clusterIds).
            \<exists>c. k = Some c \<and> c \<noteq> - 1 \<and>
                members = map fst (filter (\<lambda>(item, l). l = c) (zip items clusterIds)) \<and>
                sampleCluster (map toGroup members) =
                  map (\<lambda>item. source_text (source (toGroup item)))
                    (take 5 (map fst (filter (\<lambda>(item, l). l = c) (zip items clusterIds))))) \<and>
         (\<forall>c \<in> set clusterIds. c \<noteq> - 1 \<longrightarrow>
            (Some c, map fst (filter (\<lambda>(item, l). l = c) (zip items clusterIds)))
              \<in> set (groupByCluster items clusterIds))"
proof (intro conjI)
  show "distinct (map fst (groupByCluster items clusterIds))"
    unfolding groupByCluster_def by (rule groupLoop_distinct) simp
next
  have sample: "sampleCluster (map toGroup members) =
      map (\<lambda>item. source_text (source (toGroup item))) (take 5 members)" for members :: "'a list"
    by (simp add: sampleCluster_def take_map comp_def min_def)
  show "\<forall>(k, members) \<in> set (groupByCluster items clusterIds).
            \<exists>c. k = Some c \<and> c \<noteq> - 1 \<and>
                members = map fst (filter (\<lambda>(item, l). l = c) (zip items clusterIds)) \<and>
                sampleCluster (map toGroup members) =
                  map (\<lambda>item. source_text (source (toGroup item)))
                    (take 5 (map fst (filter (\<lambda>(item, l). l = c) (zip items clusterIds))))"
    by (auto simp: groupByCluster_entries [OF assms] set_firstOccurrences sample
          itemsLabelled_def)
next
  show "\<forall>c \<in> set clusterIds. c \<noteq> - 1 \<longrightarrow>
            (Some c, map fst (filter (\<lambda>(item, l). l = c) (zip items clusterIds)))
              \<in> set (groupByCluster items clusterIds)"
    by (auto simp: groupByCluster_entries [OF assms] set_firstOccurrences itemsLabelled_def)
qed

text \<open>C10, witness: four items with the labels \<open>[0, -1, 1, 0]\<close>.\<close>

theorem C10_clusters_in_input_order_witness:
  "length [''a'', ''b'', ''c'', ''d''] = length [0, - 1, 1, 0 :: int] \<and>
   (Some 0, [''a'', ''d'']) \<in> set (groupByCluster [''a'', ''b'', ''c'', ''d''] [0, - 1, 1, 0])"
  using C10_clusters_in_input_order
    [of "[''a'', ''b'', ''c'', ''d'']" "[0, - 1, 1, 0]" "\<lambda>text. item_group (exampleItem 1 1 text [])"]
  by simp

section \<open>Properties of the find-subject-relationship tool\<close>

subsection \<open>Facts for the evaluation of the examples\<close>

lemma lower_examples:
  "toLowerCase ''Alice'' = ''alice''" "toLowerCase ''Bob'' = ''bob''"
  "toLowerCase ''Sam'' = ''sam''" "toLowerCase ''Hall'' = ''hall''"
  by code_simp+



lemma resolve_examples:
  "findSubjectIdsByName [exampleSubject 7 ''Sam Hall''] ''Sam'' ''Hall'' = Inr (7, 7)"
  "findSubjectIdsByName [exampleSubject 2 ''Alice'', exampleSubject 3 ''Bob''] ''Alice'' ''Bob''
     = Inr (2, 3)"
  by code_simp+

lemmas example_defs =
  emptyDb_def exampleSource_def exampleGroup_def exampleSubject_def exampleEnv_def
  exampleParse_def

lemmas pipeline_defs =
  getOrCreateSubjectRelationship_def generateRelationshipSummary_def
  dbscanClusterSubjectEmbeddings_def clusterInput_def sharedSourcesQuery_def joinedRows_def
  leftJoin_def clusterSubjects_def relationshipQuery_def updateSubjectRelationship_def
  existingSummary_def orNoSharedSources_def orderIds_def dbGet_def Let_def

subsection \<open>The first row of a query\<close>











subsection \<open>\<open>LIKE\<close> with \<open>%name%\<close> as containment\<close>

text \<open>
  For a name that has neither \<open>%\<close> nor \<open>_\<close> in it, a subject matches the pattern
  \<open>%name%\<close> exactly when it contains the name, ASCII letters compared without case.
  A \<open>%\<close> or \<open>_\<close> in the name acts as a wildcard of the pattern.
\<close>

lemma likeMatch_percent_only: "likeMatch [CHR ''%''] s"
  by (induction s) auto

lemma likeMatch_literal:
  "p \<noteq> CHR ''%'' \<Longrightarrow> p \<noteq> CHR ''_'' \<Longrightarrow>
   likeMatch (p # ps) s \<longleftrightarrow> (\<exists>c s'. s = c # s' \<and> lowerChar p = lowerChar c \<and> likeMatch ps s')"
  by (cases s) simp_all

lemma likeMatch_prefix:
  "CHR ''%'' \<notin> set name \<Longrightarrow> CHR ''_'' \<notin> set name \<Longrightarrow>
   likeMatch (name @ [CHR ''%'']) s \<longleftrightarrow> (\<exists>post. toLowerCase s = toLowerCase name @ post)"
proof (induction name arbitrary: s)
  case Nil
  then show ?case by (simp add: likeMatch_percent_only toLowerCase_def del: likeMatch.simps)
next
  case (Cons p ps)
  then have p: "p \<noteq> CHR ''%''" "p \<noteq> CHR ''_''"
    and ps: "CHR ''%'' \<notin> set ps" "CHR ''_'' \<notin> set ps" by auto
  have "likeMatch ((p # ps) @ [CHR ''%'']) s \<longleftrightarrow>
        (\<exists>c s'. s = c # s' \<and> lowerChar p = lowerChar c \<and> likeMatch (ps @ [CHR ''%'']) s')"
    using likeMatch_literal [OF p, of "ps @ [CHR ''%'']" s] by simp
  also have "\<dots> \<longleftrightarrow>
        (\<exists>c s'. s = c # s' \<and> lowerChar p = lowerChar c \<and>
                 (\<exists>post. toLowerCase s' = toLowerCase ps @ post))"
    by (simp only: Cons.IH [OF ps])
  also have "\<dots> \<longleftrightarrow> (\<exists>post. toLowerCase s = toLowerCase (p # ps) @ post)"
    by (cases s) (auto simp: toLowerCase_def)
  finally show ?case .
qed

lemma likeMatch_percent_first:
  "likeMatch (CHR ''%'' # q) s \<longleftrightarrow> (\<exists>pre rest. s = pre @ rest \<and> likeMatch q rest)"
proof (induction s)
  case Nil
  then show ?case by simp
next
  case (Cons c s)
  show ?case
  proof
    assume "likeMatch (CHR ''%'' # q) (c # s)"
    then consider "likeMatch q (c # s)" | "likeMatch (CHR ''%'' # q) s" by auto
    then show "\<exists>pre rest. c # s = pre @ rest \<and> likeMatch q rest"
    proof cases
      case 1
      then have "c # s = [] @ (c # s) \<and> likeMatch q (c # s)" by simp
      then show ?thesis by blast
    next
      case 2
      with Cons.IH obtain pre rest where "s = pre @ rest" "likeMatch q rest" by blast
      then have "c # s = (c # pre) @ rest \<and> likeMatch q rest" by simp
      then show ?thesis by blast
    qed
  next
    assume "\<exists>pre rest. c # s = pre @ rest \<and> likeMatch q rest"
    then obtain pre rest where pr: "c # s = pre @ rest" "likeMatch q rest" by blast
    show "likeMatch (CHR ''%'' # q) (c # s)"
    proof (cases pre)
      case Nil
      with pr show ?thesis by simp
    next
      case (Cons c' pre')
      with pr have "s = pre' @ rest" by simp
      with pr(2) Cons.IH have "likeMatch (CHR ''%'' # q) s" by blast
      then show ?thesis by simp
    qed
  qed
qed

lemma likeMatch_contains:
  assumes "CHR ''%'' \<notin> set name" and "CHR ''_'' \<notin> set name"
  shows "likeMatch (containsPattern name) s \<longleftrightarrow>
         (\<exists>pre post. toLowerCase s = pre @ toLowerCase name @ post)"
proof
  assume "likeMatch (containsPattern name) s"
  then obtain pre rest where "s = pre @ rest" "likeMatch (name @ [CHR ''%'']) rest"
    unfolding containsPattern_def likeMatch_percent_first by blast
  with likeMatch_prefix [OF assms] obtain post where
    "s = pre @ rest" "toLowerCase rest = toLowerCase name @ post" by blast
  then have "toLowerCase s = toLowerCase pre @ toLowerCase name @ post"
    by (simp add: toLowerCase_def)
  then show "\<exists>pre post. toLowerCase s = pre @ toLowerCase name @ post" by blast
next
  assume "\<exists>pre post. toLowerCase s = pre @ toLowerCase name @ post"
  then obtain pre post where e: "toLowerCase s = pre @ toLowerCase name @ post" by blast
  let ?n = "length pre"
  have "toLowerCase (drop ?n s) = drop ?n (toLowerCase s)"
    by (simp add: toLowerCase_def drop_map)
  with e have "toLowerCase (drop ?n s) = toLowerCase name @ post" by simp
  with likeMatch_prefix [OF assms] have "likeMatch (name @ [CHR ''%'']) (drop ?n s)" by blast
  moreover have "s = take ?n s @ drop ?n s" by simp
  ultimately show "likeMatch (containsPattern name) s"
    unfolding containsPattern_def likeMatch_percent_first by blast
qed

subsection \<open>C6: exact match first, then the best-ranked fuzzy match\<close>



subsection \<open>The upsert of a relationship row\<close>

lemma update_success:
  "relationshipCheck e firstId secondId \<Longrightarrow>
   \<exists>table'. updateSubjectRelationship e table firstId secondId summary = Inr table'"
  by (simp add: updateSubjectRelationship_def)



lemma update_cases:
  assumes "updateSubjectRelationship e table firstId secondId summary = Inr table'"
  shows "(relationshipQuery table firstId secondId = [] \<and>
          table' = table @
             [\<lparr>subject_1 = firstId, subject_2 = secondId, relationship_summary = summary,
               relationship_embedding = None, updated_at = datetimeNow e\<rparr>]) \<or>
         (relationshipQuery table firstId secondId \<noteq> [] \<and>
          table' = map (\<lambda>row. if subject_1 row = firstId \<and> subject_2 row = secondId
                  then row\<lparr>relationship_summary := summary, updated_at := datetimeNow e\<rparr>
                  else row) table)"
  using assms by (auto simp: updateSubjectRelationship_def split: if_splits)

lemma query_after_overwrite:
  "relationshipQuery
     (map (\<lambda>row. if subject_1 row = firstId \<and> subject_2 row = secondId
                  then row\<lparr>relationship_summary := summary, updated_at := now\<rparr>
                  else row) table) firstId secondId =
   map (\<lambda>row. row\<lparr>relationship_summary := summary, updated_at := now\<rparr>)
     (relationshipQuery table firstId secondId)"
  by (induction table) (auto simp: relationshipQuery_def)

lemma update_written:
  assumes "updateSubjectRelationship e table firstId secondId summary = Inr table'"
  shows "relationshipQuery table' firstId secondId \<noteq> [] \<and>
         (\<forall>row \<in> set (relationshipQuery table' firstId secondId).
            relationship_summary row = summary \<and> updated_at row = datetimeNow e)"
proof -
  from update_cases [OF assms] show ?thesis
  proof
    assume "relationshipQuery table firstId secondId = [] \<and>
          table' = table @
             [\<lparr>subject_1 = firstId, subject_2 = secondId, relationship_summary = summary,
               relationship_embedding = None, updated_at = datetimeNow e\<rparr>]"
    then have "relationshipQuery table' firstId secondId =
             [\<lparr>subject_1 = firstId, subject_2 = secondId, relationship_summary = summary,
               relationship_embedding = None, updated_at = datetimeNow e\<rparr>]"
      by (simp add: relationshipQuery_def)
    then show ?thesis by simp
  next
    assume "relationshipQuery table firstId secondId \<noteq> [] \<and>
          table' = map (\<lambda>row. if subject_1 row = firstId \<and> subject_2 row = secondId
                  then row\<lparr>relationship_summary := summary, updated_at := datetimeNow e\<rparr>
                  else row) table"
    then show ?thesis by (simp add: query_after_overwrite)
  qed
qed

lemma update_others:
  assumes "updateSubjectRelationship e table firstId secondId summary = Inr table'"
    and "(f, s) \<noteq> (firstId, secondId)"
  shows "relationshipQuery table' f s = relationshipQuery table f s"
proof -
  have "filter (\<lambda>row. subject_1 row = f \<and> subject_2 row = s)
          (map (\<lambda>row. if subject_1 row = firstId \<and> subject_2 row = secondId
                  then row\<lparr>relationship_summary := summary, updated_at := datetimeNow e\<rparr>
                  else row) table)
        = filter (\<lambda>row. subject_1 row = f \<and> subject_2 row = s) table"
    using assms(2) by (induction table) auto
  with assms show ?thesis
    by (auto simp: updateSubjectRelationship_def relationshipQuery_def split: if_splits)
qed









subsection \<open>C7: one row for an unordered pair\<close>




subsection \<open>C3: the same-subject check\<close>





subsection \<open>C8 and C2: what a cache miss writes\<close>

lemma getOrCreate_miss:
  assumes "dbFileExists e"
    and "findSubjectIdsByName (subjects db) subject1Name subject2Name = Inr (subject1Id, subject2Id)"
    and "orderIds subject1Id subject2Id = (firstId, secondId)"
    and "existingSummary
           (dbGet (relationshipQuery (subject_relationships db) firstId secondId)) = None"
  shows "getOrCreateSubjectRelationship e db subject1Name subject2Name =
     (case generateRelationshipSummary e db firstId secondId subject1Name subject2Name of
        Inl err \<Rightarrow> (Inl err, db)
      | Inr relationshipSummary \<Rightarrow>
          (case updateSubjectRelationship e (subject_relationships db)
                  firstId secondId relationshipSummary of
             Inl err \<Rightarrow> (Inl err, db)
           | Inr table \<Rightarrow>
               (Inr (orNoSharedSources relationshipSummary),
                db\<lparr>subject_relationships := table\<rparr>)))"
  using assms by (simp add: getOrCreateSubjectRelationship_def)

text \<open>
  C8. When the names resolve, the lookup finds no summary and the clustering returns
  at least one cluster, the model is called on the prompt with a time limit of 30000
  milliseconds; if that call throws (a time-out included) the tool fails with
  \<open>'Failed to generate relationship summary: ...'\<close> and the database is as it was.
\<close>

theorem C8_summarizer_failure_no_write:
  assumes "dbFileExists e"
    and "findSubjectIdsByName (subjects db) subject1Name subject2Name = Inr (subject1Id, subject2Id)"
    and "orderIds subject1Id subject2Id = (firstId, secondId)"
    and "existingSummary
           (dbGet (relationshipQuery (subject_relationships db) firstId secondId)) = None"
    and "dbscanClusterSubjectEmbeddings e db
           (clusterSubjects firstId secondId subject1Name subject2Name) (2 / 10) 2 = Inr clusters"
    and "clusters \<noteq> []"
    and "generateContent e (relationshipPrompt e clusters subject1Name subject2Name) 30000
           = Inl message"
  shows "getOrCreateSubjectRelationship e db subject1Name subject2Name =
           (Inl (GenerateSummaryFailed message), db)"
proof -
  from assms(7) have "callGeminiForRelationshipSummary e
      (relationshipPrompt e clusters subject1Name subject2Name) = Inl (GenerateSummaryFailed message)"
    by (simp add: callGeminiForRelationshipSummary_def)
  with assms(5,6) have
    "generateRelationshipSummary e db firstId secondId subject1Name subject2Name =
       Inl (GenerateSummaryFailed message)"
    by (simp add: generateRelationshipSummary_def)
  with getOrCreate_miss [OF assms(1-4)] show ?thesis by simp
qed

text \<open>
  C8, witness: three shared sources form a cluster and the model call is aborted at
  30000 milliseconds; the tool fails and the database is unchanged.
\<close>

theorem C8_summarizer_failure_no_write_witness:
  "getOrCreateSubjectRelationship exampleEnv threeSourcesDb ''Alice'' ''Bob'' =
     (Inl (GenerateSummaryFailed ''aborted''), threeSourcesDb)"
proof -
  have h1: "dbFileExists exampleEnv" by (simp add: exampleEnv_def)
  have h2: "findSubjectIdsByName (subjects threeSourcesDb) ''Alice'' ''Bob'' = Inr (2, 3)"
    using resolve_examples(2) by (simp add: threeSourcesDb_def emptyDb_def)
  have h3: "orderIds 2 3 = (2, 3)" by (simp add: orderIds_def)
  have h4: "existingSummary
              (dbGet (relationshipQuery (subject_relationships threeSourcesDb) 2 3)) = None"
    by (simp add: threeSourcesDb_def emptyDb_def relationshipQuery_def dbGet_def
        existingSummary_def)
  have "\<exists>clusters. dbscanClusterSubjectEmbeddings exampleEnv threeSourcesDb
              (clusterSubjects 2 3 ''Alice'' ''Bob'') (2 / 10) 2 = Inr clusters \<and> clusters \<noteq> []"
    by (simp add: pipeline_defs threeSourcesDb_def example_defs lower_examples dbscan_eval
        groupByCluster_def calculateClusterCentroid_def
        del: getNeighborsLoop.simps(2))
  then obtain clusters where
    h5: "dbscanClusterSubjectEmbeddings exampleEnv threeSourcesDb
              (clusterSubjects 2 3 ''Alice'' ''Bob'') (2 / 10) 2 = Inr clusters"
    and h6: "clusters \<noteq> []"
    by blast
  have h7: "generateContent exampleEnv
              (relationshipPrompt exampleEnv clusters ''Alice'' ''Bob'') 30000 = Inl ''aborted''"
    by (simp add: exampleEnv_def)
  from C8_summarizer_failure_no_write [OF h1 h2 h3 h4 h5 h6 h7] show ?thesis .
qed

text \<open>
  C2, as the claim states it, fails in its first half. With two subjects and no
  sources the clustering returns no cluster, the relationship table is empty before
  the call, and after it the table holds a row of the pair \<open>(2, 3)\<close> whose summary is
  \<open>null\<close>.
\<close>

theorem C2_store_unchanged_counterexample:
  "dbscanClusterSubjectEmbeddings exampleEnv twoSubjectsDb [''Alice'', ''Bob''] (2 / 10) 2
     = Inr [] \<and>
   subject_relationships twoSubjectsDb = [] \<and>
   getOrCreateSubjectRelationship exampleEnv twoSubjectsDb ''Alice'' ''Bob'' =
     (Inr ''No shared sources found'',
      twoSubjectsDb\<lparr>subject_relationships :=
        [\<lparr>subject_1 = 2, subject_2 = 3, relationship_summary = None,
          relationship_embedding = None, updated_at = ''2025-01-01 00:00:00''\<rparr>]\<rparr>)"
  using resolve_examples(2)
  by (simp add: pipeline_defs twoSubjectsDb_def example_defs lower_examples)

text \<open>
  C2, amended. When the names resolve, the lookup finds no summary, the clustering
  returns no cluster and the \<open>CHECK\<close> constraint accepts the ordered pair, the tool
  returns \<open>'No shared sources found'\<close>, which is not an error, and it does write: the
  upsert is run with the summary \<open>null\<close>, after which the table has a row of the pair,
  every row of the pair has the summary \<open>null\<close> and the new time stamp, and the rows of
  every other pair are as they were.
\<close>

theorem C2_empty_clusters_write_null_row:
  assumes "dbFileExists e"
    and "findSubjectIdsByName (subjects db) subject1Name subject2Name = Inr (subject1Id, subject2Id)"
    and "orderIds subject1Id subject2Id = (firstId, secondId)"
    and "existingSummary
           (dbGet (relationshipQuery (subject_relationships db) firstId secondId)) = None"
    and "dbscanClusterSubjectEmbeddings e db
           (clusterSubjects firstId secondId subject1Name subject2Name) (2 / 10) 2 = Inr []"
    and "relationshipCheck e firstId secondId"
  shows "\<exists>table.
           updateSubjectRelationship e (subject_relationships db) firstId secondId None
             = Inr table \<and>
           getOrCreateSubjectRelationship e db subject1Name subject2Name =
             (Inr ''No shared sources found'', db\<lparr>subject_relationships := table\<rparr>) \<and>
           relationshipQuery table firstId secondId \<noteq> [] \<and>
           (\<forall>row \<in> set (relationshipQuery table firstId secondId).
              relationship_summary row = None \<and> updated_at row = datetimeNow e) \<and>
           (\<forall>f s. (f, s) \<noteq> (firstId, secondId) \<longrightarrow>
              relationshipQuery table f s = relationshipQuery (subject_relationships db) f s)"
proof -
  from assms(5) have g:
    "generateRelationshipSummary e db firstId secondId subject1Name subject2Name = Inr None"
    by (simp add: generateRelationshipSummary_def)
  from update_success [OF assms(6)] obtain table where
    u: "updateSubjectRelationship e (subject_relationships db) firstId secondId None = Inr table"
    by blast
  from getOrCreate_miss [OF assms(1-4)] g u
  have "getOrCreateSubjectRelationship e db subject1Name subject2Name =
          (Inr ''No shared sources found'', db\<lparr>subject_relationships := table\<rparr>)"
    by (simp add: orNoSharedSources_def)
  with u update_written [OF u] update_others [OF u] show ?thesis by blast
qed

text \<open>
  C2, witness: the table holds a row of the pair without a summary and a row of
  another pair; the first gets the new time stamp and keeps its embedding, the second
  is left as it was.
\<close>

theorem C2_empty_clusters_write_null_row_witness:
  "getOrCreateSubjectRelationship exampleEnv staleRowDb ''Alice'' ''Bob'' =
     (Inr ''No shared sources found'',
      staleRowDb\<lparr>subject_relationships :=
        [\<lparr>subject_1 = 2, subject_2 = 3, relationship_summary = None,
          relationship_embedding = Some ''[1]'', updated_at = ''2025-01-01 00:00:00''\<rparr>,
         \<lparr>subject_1 = 2, subject_2 = 9, relationship_summary = Some ''colleagues'',
          relationship_embedding = None, updated_at = ''2024-06-30 12:00:00''\<rparr>]\<rparr>)"
proof -
  have h1: "dbFileExists exampleEnv" by (simp add: exampleEnv_def)
  have h2: "findSubjectIdsByName (subjects staleRowDb) ''Alice'' ''Bob'' = Inr (2, 3)"
    using resolve_examples(2) by (simp add: staleRowDb_def twoSubjectsDb_def emptyDb_def)
  have h3: "orderIds 2 3 = (2, 3)" by (simp add: orderIds_def)
  have h4: "existingSummary
              (dbGet (relationshipQuery (subject_relationships staleRowDb) 2 3)) = None"
    by (simp add: staleRowDb_def relationshipQuery_def dbGet_def existingSummary_def)
  have h5: "dbscanClusterSubjectEmbeddings exampleEnv staleRowDb
              (clusterSubjects 2 3 ''Alice'' ''Bob'') (2 / 10) 2 = Inr []"
    by (simp add: pipeline_defs staleRowDb_def twoSubjectsDb_def example_defs lower_examples)
  have h6: "relationshipCheck exampleEnv 2 3" by (simp add: exampleEnv_def)
  from C2_empty_clusters_write_null_row [OF h1 h2 h3 h4 h5 h6]
  obtain table where
    u: "updateSubjectRelationship exampleEnv (subject_relationships staleRowDb) 2 3 None
          = Inr table"
    and g: "getOrCreateSubjectRelationship exampleEnv staleRowDb ''Alice'' ''Bob'' =
          (Inr ''No shared sources found'', staleRowDb\<lparr>subject_relationships := table\<rparr>)"
    by blast
  from u have "table =
        [\<lparr>subject_1 = 2, subject_2 = 3, relationship_summary = None,
          relationship_embedding = Some ''[1]'', updated_at = ''2025-01-01 00:00:00''\<rparr>,
         \<lparr>subject_1 = 2, subject_2 = 9, relationship_summary = Some ''colleagues'',
          relationship_embedding = None, updated_at = ''2024-06-30 12:00:00''\<rparr>]"
    by (simp add: updateSubjectRelationship_def relationshipQuery_def staleRowDb_def
        exampleEnv_def)
  with g show ?thesis by simp
qed

subsection \<open>C4: one item for each source\<close>









end
